theory Spec2Isabelle
  imports Main "HOL-Library.Word"
begin

unbundle bit_operations_syntax

section \<open>Bytes and Python integers\<close>

text \<open>
  The updater is Python: its integers are unbounded (\<open>int\<close>), a \<open>bytes\<close> or
  \<open>bytearray\<close> value is a list of 8-bit words.
\<close>

type_synonym byte = "8 word"

text \<open>\<^verbatim>\<open>int.from_bytes(data, byteorder="little", signed=False)\<close>\<close>

fun from_bytes_little :: "byte list \<Rightarrow> int" where
  "from_bytes_little [] = 0"
| "from_bytes_little (b # bs) = uint b + 256 * from_bytes_little bs"

section \<open>CRC engine: \<open>calc_crc32\<close> and \<open>calc_crc64\<close>\<close>

text \<open>
  One pass of the body of \<^verbatim>\<open>for _ in range(32)\<close> in \<open>calc_crc32\<close>:
  \<^verbatim>\<open>
  if crc & (1 << 31) != 0: crc = (crc << 1) ^ 0x4C11DB7
  else:                    crc <<= 1
  crc &= 0xFFFFFFFF
  \<close>
\<close>

definition crc32_round :: "int \<Rightarrow> int" where
  "crc32_round crc =
     (if crc AND push_bit 31 1 \<noteq> 0 then push_bit 1 crc XOR 0x4C11DB7 else push_bit 1 crc)
       AND 0xFFFFFFFF"

fun crc32_rounds :: "nat \<Rightarrow> int \<Rightarrow> int" where
  "crc32_rounds 0 crc = crc"
| "crc32_rounds (Suc n) crc = crc32_rounds n (crc32_round crc)"

definition calc_crc32 :: "byte list \<Rightarrow> int \<Rightarrow> int" where
  "calc_crc32 data crc = crc32_rounds 32 (crc XOR from_bytes_little data)"

text \<open>\<open>calc_crc64\<close>: the slices \<^verbatim>\<open>data[:4]\<close> and \<^verbatim>\<open>data[4:]\<close>.\<close>

definition calc_crc64 :: "byte list \<Rightarrow> int \<Rightarrow> int" where
  "calc_crc64 data checksum = calc_crc32 (drop 4 data) (calc_crc32 (take 4 data) checksum)"

subsection \<open>The CRC step as the specification words it\<close>

text \<open>
  The specification's \<open>crc32_step\<close> on 32-bit words: XOR the accumulator with the
  little-endian u32 of the chunk, then 32 times shift left by one, XOR-ing with the
  polynomial when bit 31 was set. A 32-bit word drops the bit shifted out, which is the
  masking after each step.
\<close>

definition little_endian_u32 :: "byte list \<Rightarrow> 32 word" where
  "little_endian_u32 d = word_of_int (from_bytes_little d)"

definition spec_crc_shift :: "32 word \<Rightarrow> 32 word" where
  "spec_crc_shift w = (if bit w 31 then push_bit 1 w XOR 0x04C11DB7 else push_bit 1 w)"

definition spec_crc32_step :: "byte list \<Rightarrow> 32 word \<Rightarrow> 32 word" where
  "spec_crc32_step data4 crc = (spec_crc_shift ^^ 32) (crc XOR little_endian_u32 data4)"

definition spec_crc64_step :: "byte list \<Rightarrow> 32 word \<Rightarrow> 32 word" where
  "spec_crc64_step data8 crc =
     spec_crc32_step (drop 4 data8) (spec_crc32_step (take 4 data8) crc)"


section \<open>Python helpers used by the updater\<close>

text \<open>
  \<open>xs[i:j]\<close> for the non-negative indices the updater uses (page and chunk offsets):
  Python clamps a slice to the sequence, as \<open>take\<close> and \<open>drop\<close> do.
\<close>

definition slice :: "'a list \<Rightarrow> int \<Rightarrow> int \<Rightarrow> 'a list" where
  "slice xs i j = take (nat j - nat i) (drop (nat i) xs)"

text \<open>\<open>range(0, n, 8)\<close>\<close>

definition range_step8 :: "int \<Rightarrow> int list" where
  "range_step8 n = map (\<lambda>k. 8 * int k) [0..<nat ((n + 7) div 8)]"

text \<open>\<open>str(n)\<close> of an integer, in decimal.\<close>

definition digit_char :: "nat \<Rightarrow> char" where
  "digit_char d = char_of (48 + d)"

function str_nat :: "nat \<Rightarrow> string" where
  "str_nat n = (if n < 10 then [digit_char n] else str_nat (n div 10) @ [digit_char (n mod 10)])"
  by pat_completeness auto
termination
  by (relation "measure id") auto

declare str_nat.simps [simp del]

definition py_str :: "int \<Rightarrow> string" where
  "py_str i = (if i < 0 then CHR ''-'' # str_nat (nat (- i)) else str_nat (nat i))"

text \<open>\<open>".".join(parts)\<close>\<close>

fun join_dot :: "string list \<Rightarrow> string" where
  "join_dot [] = []"
| "join_dot [x] = x"
| "join_dot (x # y # ys) = x @ ''.'' @ join_dot (y # ys)"

text \<open>\<open>s.split(c)\<close> for a one-character separator: always at least one part.\<close>

fun split_on :: "char \<Rightarrow> string \<Rightarrow> string list" where
  "split_on c [] = [[]]"
| "split_on c (x # xs) =
     (if x = c then [] # split_on c xs
      else (case split_on c xs of [] \<Rightarrow> [[x]] | p # ps \<Rightarrow> (x # p) # ps))"

datatype py_error = ValueError | IndexError | TypeError

text \<open>
  \<open>int(digit)\<close> in base 10, on a string of characters below 256: white space around
  the text is dropped (the characters 9 to 13, the space and the two Latin-1 spaces
  \<open>0x85\<close> and \<open>0xA0\<close>), one sign may lead, and the digits may be
  grouped by single underscores. Anything else raises \<open>ValueError\<close>, the empty string
  included, and so does a text of more than 4300 digits (the default of
  \<open>sys.set_int_max_str_digits\<close>).
\<close>

definition is_digit :: "char \<Rightarrow> bool" where
  "is_digit c = ((48::nat) \<le> of_char c \<and> of_char c \<le> (57::nat))"

definition is_space :: "char \<Rightarrow> bool" where
  "is_space c = (((9::nat) \<le> of_char c \<and> of_char c \<le> (13::nat)) \<or> of_char c = (32::nat)
                 \<or> of_char c = (133::nat) \<or> of_char c = (160::nat))"

definition py_strip :: "string \<Rightarrow> string" where
  "py_strip str = rev (dropWhile is_space (rev (dropWhile is_space str)))"

definition int_max_str_digits :: nat where "int_max_str_digits = 4300"

definition py_int :: "string \<Rightarrow> py_error + int" where
  "py_int str =
     (let body = py_strip str ;
          negative = (body \<noteq> [] \<and> hd body = CHR ''-'') ;
          signed = (body \<noteq> [] \<and> (hd body = CHR ''-'' \<or> hd body = CHR ''+'')) ;
          groups = split_on CHR ''_'' (if signed then tl body else body) ;
          digits = concat groups
      in if list_all (\<lambda>g. g \<noteq> [] \<and> list_all is_digit g) groups
            \<and> length digits \<le> int_max_str_digits
         then Inr ((if negative then - 1 else 1) *
                   foldl (\<lambda>acc c. 10 * acc + (int (of_char c) - 48)) 0 digits)
         else Inl ValueError)"

fun py_int_all :: "string list \<Rightarrow> py_error + int list" where
  "py_int_all [] = Inr []"
| "py_int_all (x # xs) =
     (case py_int x of Inl e \<Rightarrow> Inl e
      | Inr v \<Rightarrow> (case py_int_all xs of Inl e \<Rightarrow> Inl e | Inr vs \<Rightarrow> Inr (v # vs)))"

text \<open>The little-endian bytes of a value, \<open>n\<close> of them: \<open>v & 0xFF\<close>, then \<open>v >>= 8\<close>.\<close>

fun le_bytes :: "nat \<Rightarrow> int \<Rightarrow> byte list" where
  "le_bytes 0 v = []"
| "le_bytes (Suc n) v = word_of_int (v AND 0xFF) # le_bytes n (drop_bit 8 v)"

section \<open>Firmware image constants and the end-flash block\<close>

definition page_size :: int where "page_size = 0x800"
definition flash_memory_addr :: int where "flash_memory_addr = 0x08000000"
definition erase_page_num :: int where "erase_page_num = 2"
definition page_offset :: int where "page_offset = 0x8800"
definition bin_begin :: int where "bin_begin = page_size"
definition end_flash_addr :: int where "end_flash_addr = 0x0801F800"

text \<open>
  \<open>sys.getsizeof(bin_buffer)\<close>: the allocated size of the \<open>bytes\<close> object, which in
  CPython on a 64-bit build is the length of the data plus a header of 33 bytes
  (\<open>sys.getsizeof(b"") == 33\<close>).
\<close>

definition sys_getsizeof :: "byte list \<Rightarrow> int" where
  "sys_getsizeof buf = int (length buf) + 33"

text \<open>\<^verbatim>\<open>bin_end = bin_size - ((bin_size - bin_begin) % page_size)\<close>\<close>

definition bin_end_of :: "int \<Rightarrow> int" where
  "bin_end_of bin_size = bin_size - ((bin_size - bin_begin) mod page_size)"

text \<open>
  The version number written to the trailer:
  \<^verbatim>\<open>
  info = version_info.lstrip("v").split("-")[0]
  digits = [int(digit) for digit in info.split(".")]
  version = digits[0] << 13 | digits[1] << 8 | digits[2]
  \<close>
  \<open>int\<close> raises \<open>ValueError\<close>, a missing component \<open>IndexError\<close>. The first
  part of \<open>split("-")\<close> is the text before the first \<open>-\<close>.
\<close>

definition strip_version :: "string \<Rightarrow> string" where
  "strip_version info = takeWhile (\<lambda>c. c \<noteq> CHR ''-'') (dropWhile (\<lambda>c. c = CHR ''v'') info)"

definition parse_version :: "string \<Rightarrow> py_error + int" where
  "parse_version info =
     (case py_int_all (split_on CHR ''.'' (strip_version info)) of
        Inl e \<Rightarrow> Inl e
      | Inr (d0 # d1 # d2 # _) \<Rightarrow> Inr (push_bit 13 d0 OR push_bit 8 d1 OR d2)
      | Inr _ \<Rightarrow> Inl IndexError)"

text \<open>
  The 16-byte end-flash block, as \<open>update_network_module\<close> and
  \<open>update_camera_module\<close> fill it.
\<close>

definition end_flash_block :: "bool \<Rightarrow> int \<Rightarrow> byte list" where
  "end_flash_block has_error version =
     (let verify_header = (if has_error then 0xFF else 0xAA) ;
          end_flash_data = replicate 16 (0 :: byte) ;
          end_flash_data = end_flash_data[0 := verify_header] ;
          end_flash_data = end_flash_data[6 := word_of_int (version AND 0xFF)] ;
          end_flash_data = end_flash_data[7 := word_of_int (drop_bit 8 version AND 0xFF)]
      in foldl (\<lambda>d xxx. d[xxx + 12 := word_of_int (drop_bit (xxx * 8) 0x08009000 AND 0xFF)])
           end_flash_data [0..<4])"


section \<open>Packets, received frames and the updater's state\<close>

text \<open>
  \<open>parse_message(cmd, sid, did, data)\<close> and the serial port are outside this file: a sent
  packet is kept as its four arguments. The module and plug-and-play state codes of
  \<open>Module\<close> are kept by name.
\<close>

datatype module_state = UPDATE_FIRMWARE | UPDATE_FIRMWARE_READY | REBOOT
datatype pnp_state = PNP_OFF

datatype payload =
    Data "byte list"
  | Pair int int
  | State module_state pnp_state

record packet =
  cmd :: int
  sid :: int
  did :: int
  payload :: payload

text \<open>
  What \<open>wait_for_json\<close> hands to a caller and what \<open>json.loads\<close> makes of it: nothing
  (\<open>None\<close>), text that is not JSON (\<open>JSONDecodeError\<close>), or a frame with its \<open>c\<close> field
  and the bytes of its \<open>b\<close> field. A read comes with the value of
  \<open>time.time() - init_time\<close> that the calling loop computes after it, in milliseconds.
\<close>

datatype rx = NoJson | BadJson | Json int "byte list"

record read_event =
  recved :: rx
  elapsed :: nat

text \<open>
  Modelled from the spec: \<open>unpack_data\<close> of \<open>util.message_util\<close> is not in this file;
  the payload shapes of the specification (\<open>uuid:6 | version:2\<close>,
  \<open>uuid:6 | warning_type:1\<close>, \<open>dummy:4 | stream_state:1\<close>, little-endian) give one
  little-endian integer per field.
\<close>

fun unpack_data :: "byte list \<Rightarrow> nat list \<Rightarrow> int list" where
  "unpack_data bs [] = []"
| "unpack_data bs (n # ns) = from_bytes_little (take n bs) # unpack_data (drop n bs) ns"

definition NO_ERROR :: int where "NO_ERROR = 0"
definition UPDATE_READY :: int where "UPDATE_READY = 1"
definition WRITE_FAIL :: int where "WRITE_FAIL = 2"
definition VERIFY_FAIL :: int where "VERIFY_FAIL = 3"
definition CRC_ERROR :: int where "CRC_ERROR = 4"
definition CRC_COMPLETE :: int where "CRC_COMPLETE = 5"
definition ERASE_ERROR :: int where "ERASE_ERROR = 6"
definition ERASE_COMPLETE :: int where "ERASE_COMPLETE = 7"

text \<open>
  The fields of \<open>NetworkFirmwareUpdater\<close>, with \<open>is_open\<close> of the serial port. Two
  traces are kept beside them: \<open>sent\<close>, the packets written to the port, and
  \<open>progress_log\<close>, the values stored in \<open>progress\<close>, both in order.
\<close>

record updater =
  is_open :: bool
  is_network :: "bool option"
  network_version :: "string option"
  network_uuid :: "int option"
  network_id :: "int option"
  update_in_progress :: bool
  progress :: int
  update_error :: int
  update_error_message :: string
  has_update_error :: bool
  sent :: "packet list"
  progress_log :: "int list"

text \<open>The state \<open>__init__\<close> leaves, on an opened port.\<close>

definition init_updater :: updater where
  "init_updater =
     \<lparr> is_open = True, is_network = Some True, network_version = None, network_uuid = None,
       network_id = None, update_in_progress = False, progress = 0, update_error = 0,
       update_error_message = [], has_update_error = False, sent = [], progress_log = [] \<rparr>"

definition write_pkt :: "updater \<Rightarrow> packet \<Rightarrow> updater" where
  "write_pkt s p = (if is_open s then s\<lparr>sent := sent s @ [p]\<rparr> else s)"

definition set_progress :: "updater \<Rightarrow> int \<Rightarrow> updater" where
  "set_progress s v = s\<lparr>progress := v, progress_log := progress_log s @ [v]\<rparr>"

definition close :: "updater \<Rightarrow> updater" where
  "close s = s\<lparr>is_open := False\<rparr>"

definition reopen :: "updater \<Rightarrow> updater" where
  "reopen s = s\<lparr>is_open := True\<rparr>"

text \<open>Python's truth value of \<open>self.network_uuid\<close> and of \<open>self.is_network\<close>.\<close>

definition truthy_int :: "int option \<Rightarrow> bool" where
  "truthy_int v = (case v of None \<Rightarrow> False | Some n \<Rightarrow> n \<noteq> 0)"

definition truthy_bool :: "bool option \<Rightarrow> bool" where
  "truthy_bool v = (case v of None \<Rightarrow> False | Some b \<Rightarrow> b)"

section \<open>Sending\<close>

definition send_request_network_uuid :: "updater \<Rightarrow> updater" where
  "send_request_network_uuid s =
     write_pkt s \<lparr>cmd = 0x28, sid = 0xFFF, did = 0xFFF, payload = Pair 0xFF 0xFF\<rparr>"

definition send_set_network_module_state ::
  "updater \<Rightarrow> int \<Rightarrow> module_state \<Rightarrow> pnp_state \<Rightarrow> updater" where
  "send_set_network_module_state s did' module_state pnp_state =
     write_pkt s \<lparr>cmd = 0xA4, sid = 0, did = did', payload = State module_state pnp_state\<rparr>"

definition send_set_module_state ::
  "updater \<Rightarrow> int \<Rightarrow> module_state \<Rightarrow> pnp_state \<Rightarrow> updater" where
  "send_set_module_state s did' module_state pnp_state =
     write_pkt s \<lparr>cmd = 0x09, sid = 0, did = did', payload = State module_state pnp_state\<rparr>"

text \<open>
  \<open>send_firmware_command\<close>: the loop over \<open>range(4)\<close> stores the four low bytes of
  \<open>crc_val\<close> in bytes 0..3 and those of \<open>page_addr\<close> in bytes 4..7.
\<close>

definition firmware_command_packet :: "string \<Rightarrow> int \<Rightarrow> int \<Rightarrow> int \<Rightarrow> packet" where
  "firmware_command_packet operation_type module_id crc_val page_addr =
     (let rot_scmd = (if operation_type = ''erase'' then 2 else 1 :: int)
      in \<lparr>cmd = 0x0D, sid = push_bit 8 rot_scmd OR 1, did = module_id,
          payload = Data (le_bytes 4 crc_val @ le_bytes 4 page_addr)\<rparr>)"

definition send_firmware_command ::
  "updater \<Rightarrow> string \<Rightarrow> int \<Rightarrow> int \<Rightarrow> int \<Rightarrow> updater" where
  "send_firmware_command s operation_type module_id crc_val page_addr =
     write_pkt s (firmware_command_packet operation_type module_id crc_val page_addr)"

definition send_firmware_data :: "updater \<Rightarrow> int \<Rightarrow> int \<Rightarrow> byte list \<Rightarrow> updater" where
  "send_firmware_data s module_id seq_num bin_data =
     write_pkt s \<lparr>cmd = 0x0B, sid = seq_num, did = module_id, payload = Data bin_data\<rparr>"

definition set_firmware_data ::
  "updater \<Rightarrow> int \<Rightarrow> int \<Rightarrow> byte list \<Rightarrow> int \<Rightarrow> int \<times> updater" where
  "set_firmware_data s module_id seq_num bin_data checksum =
     (calc_crc64 bin_data checksum, send_firmware_data s module_id seq_num bin_data)"

section \<open>Receiving a firmware command response\<close>

text \<open>
  \<open>receive_firmware_command_response\<close> with its default \<open>timeout=5\<close>. Each pass of the
  loop takes one read. A script of reads that has run out stands for a device that stays
  silent: \<open>wait_for_json\<close> gives \<open>None\<close> and the function returns \<open>False\<close>.
\<close>

fun receive_firmware_command_response :: "read_event list \<Rightarrow> bool \<times> read_event list" where
  "receive_firmware_command_response [] = (False, [])"
| "receive_firmware_command_response (e # evs) =
     (if elapsed e > 5000 \<or> recved e = NoJson then (False, evs)
      else (case recved e of
              NoJson \<Rightarrow> receive_firmware_command_response evs
            | BadJson \<Rightarrow> receive_firmware_command_response evs
            | Json c b \<Rightarrow>
                if c = 0x0C then
                  (let stream_state = unpack_data b [4, 1] ! 1
                   in if stream_state = CRC_ERROR \<or> stream_state = ERASE_ERROR
                      then (False, evs)
                      else if stream_state = CRC_COMPLETE \<or> stream_state = ERASE_COMPLETE
                      then (True, evs)
                      else receive_firmware_command_response evs)
                else receive_firmware_command_response evs))"

section \<open>\<open>set_firmware_command\<close>\<close>

definition max_retry :: nat where "max_retry = 5"

text \<open>
  The retry loop of \<open>set_firmware_command\<close>, entered with \<open>ret\<close> false:
  \<^verbatim>\<open>
  while not ret:
      self.send_firmware_command(oper_type, module_id, crc_val, page_addr)
      ret = self.receive_firmware_command_response()
      retry_count += 1
      if retry_count > max_retry: break
  \<close>
\<close>

function erase_retry ::
  "updater \<Rightarrow> read_event list \<Rightarrow> string \<Rightarrow> int \<Rightarrow> int \<Rightarrow> int \<Rightarrow> nat
     \<Rightarrow> bool \<times> updater \<times> read_event list" where
  "erase_retry s evs oper_type module_id crc_val page_addr retry_count =
     (let s1 = send_firmware_command s oper_type module_id crc_val page_addr ;
          r = receive_firmware_command_response evs ;
          retry_count1 = retry_count + 1
      in if retry_count1 > max_retry then (fst r, s1, snd r)
         else if \<not> fst r
         then erase_retry s1 (snd r) oper_type module_id crc_val page_addr retry_count1
         else (fst r, s1, snd r))"
  by pat_completeness auto
termination
  by (relation "measure (\<lambda>(s, evs, oper_type, module_id, crc_val, page_addr, retry_count).
        Suc max_retry - retry_count)") auto

declare erase_retry.simps [simp del]

definition set_firmware_command ::
  "updater \<Rightarrow> read_event list \<Rightarrow> string \<Rightarrow> int \<Rightarrow> int \<Rightarrow> int
     \<Rightarrow> bool \<times> updater \<times> read_event list" where
  "set_firmware_command s evs oper_type module_id crc_val page_addr =
     (let s1 = send_firmware_command s oper_type module_id crc_val page_addr ;
          r = receive_firmware_command_response evs
      in if \<not> fst r \<and> oper_type = ''erase''
         then erase_retry s1 (snd r) oper_type module_id crc_val page_addr 0
         else (fst r, s1, snd r))"


section \<open>Writing the end-flash trailer: \<open>set_end_flash_data\<close>\<close>

definition page_retry_max_count :: nat where "page_retry_max_count = 10"

text \<open>
  The loop \<^verbatim>\<open>for end_flash_ptr in range(0, len(end_flash_data), 8)\<close>: one data packet per
  chunk, the checksum carried along.
\<close>

fun send_end_flash_chunks ::
  "updater \<Rightarrow> int \<Rightarrow> byte list \<Rightarrow> int \<Rightarrow> int list \<Rightarrow> int \<times> updater" where
  "send_end_flash_chunks s module_id end_flash_data checksum [] = (checksum, s)"
| "send_end_flash_chunks s module_id end_flash_data checksum (end_flash_ptr # ptrs) =
     (let curr_data = slice end_flash_data end_flash_ptr (end_flash_ptr + 8) ;
          r = set_firmware_data s module_id (end_flash_ptr div 8) curr_data checksum
      in send_end_flash_chunks (snd r) module_id end_flash_data (fst r) ptrs)"

text \<open>
  The \<open>while not end_flash_success\<close> loop, with its counter \<open>page_retry_count\<close>: erase the
  trailer page, send the block, ask for the CRC; a failed CRC starts over.
\<close>

function end_flash_loop ::
  "updater \<Rightarrow> read_event list \<Rightarrow> int \<Rightarrow> byte list \<Rightarrow> nat
     \<Rightarrow> bool \<times> updater \<times> read_event list" where
  "end_flash_loop s evs module_id end_flash_data page_retry_count =
     (case set_firmware_command s evs ''erase'' module_id erase_page_num end_flash_addr of
        (erase_page_success, s1, evs1) \<Rightarrow>
          if \<not> erase_page_success
          then (False, s1\<lparr>update_error := - 1, update_error_message := ''End erase error''\<rparr>, evs1)
          else (case send_end_flash_chunks s1 module_id end_flash_data 0
                       (range_step8 (int (length end_flash_data))) of
                  (checksum, s2) \<Rightarrow>
                    (case set_firmware_command s2 evs1 ''crc'' module_id checksum end_flash_addr of
                       (crc_page_success, s3, evs3) \<Rightarrow>
                         if \<not> crc_page_success then
                           (if update_error s3 = - 1 then (False, s3, evs3)
                            else if page_retry_count + 1 > page_retry_max_count
                            then (False,
                                  s3\<lparr>update_error := - 1, update_error_message := ''End crc error''\<rparr>,
                                  evs3)
                            else end_flash_loop s3 evs3 module_id end_flash_data
                                   (page_retry_count + 1))
                         else (True, s3, evs3))))"
  by pat_completeness auto
termination
  by (relation "measure (\<lambda>(s, evs, module_id, end_flash_data, page_retry_count).
        Suc page_retry_max_count - page_retry_count)") auto

declare end_flash_loop.simps [simp del]

definition set_end_flash_data ::
  "updater \<Rightarrow> read_event list \<Rightarrow> int \<Rightarrow> byte list \<Rightarrow> bool \<times> updater \<times> read_event list" where
  "set_end_flash_data s evs module_id end_flash_data =
     end_flash_loop s evs module_id end_flash_data 0"

section \<open>The page loop of \<open>update_network_module\<close> and \<open>update_camera_module\<close>\<close>

definition erase_error_limit :: nat where "erase_error_limit = 2"
definition crc_error_limit :: nat where "crc_error_limit = 2"

text \<open>
  The loop \<^verbatim>\<open>for curr_ptr in range(0, page_size, 8)\<close> that writes one page; it stops at the
  first chunk at or beyond \<open>bin_size\<close>.
\<close>

fun write_page ::
  "updater \<Rightarrow> int \<Rightarrow> byte list \<Rightarrow> int \<Rightarrow> int \<Rightarrow> int \<Rightarrow> int list \<Rightarrow> int \<times> updater" where
  "write_page s module_id curr_page page_begin bin_size checksum [] = (checksum, s)"
| "write_page s module_id curr_page page_begin bin_size checksum (curr_ptr # ptrs) =
     (if page_begin + curr_ptr \<ge> bin_size then (checksum, s)
      else (let curr_data = slice curr_page curr_ptr (curr_ptr + 8) ;
                r = set_firmware_data s module_id (curr_ptr div 8) curr_data checksum
            in write_page (snd r) module_id curr_page page_begin bin_size (fst r) ptrs))"

text \<open>
  The two update procedures differ in the word \<open>network\<close> or \<open>camera\<close> of their file path
  and messages only; \<open>label\<close> is that word. The loop returns the state, the reads left
  and the value of \<open>page_begin\<close> at its end.
\<close>

definition erase_failed_message :: "string \<Rightarrow> int \<Rightarrow> string" where
  "erase_failed_message label module_id =
     label @ '' ('' @ py_str module_id @ '') erase flash failed.''"

function page_loop ::
  "string \<Rightarrow> int \<Rightarrow> byte list \<Rightarrow> int \<Rightarrow> int \<Rightarrow> updater \<Rightarrow> read_event list \<Rightarrow> int \<Rightarrow> nat \<Rightarrow> nat
     \<Rightarrow> updater \<times> read_event list \<times> int" where
  "page_loop label module_id bin_buffer bin_size bin_end s evs page_begin
       erase_error_count crc_error_count =
     (if page_begin < bin_end then
        (let s0 = set_progress s (100 * page_begin div bin_end) ;
             page_end = page_begin + page_size ;
             curr_page = slice bin_buffer page_begin page_end
         in if curr_page = replicate (length curr_page) 0
            then page_loop label module_id bin_buffer bin_size bin_end s0 evs
                   (page_begin + page_size) erase_error_count crc_error_count
            else
              (case set_firmware_command s0 evs ''erase'' module_id erase_page_num
                      (flash_memory_addr + page_begin + page_offset) of
                 (erase_page_success, s1, evs1) \<Rightarrow>
                   if \<not> erase_page_success then
                     (if erase_error_count + 1 > erase_error_limit
                      then (s1\<lparr>has_update_error := True,
                                update_error_message := erase_failed_message label module_id\<rparr>,
                            evs1, page_begin)
                      else page_loop label module_id bin_buffer bin_size bin_end s1 evs1
                             page_begin (erase_error_count + 1) crc_error_count)
                   else
                     (case write_page s1 module_id curr_page page_begin bin_size 0
                             (range_step8 page_size) of
                        (checksum, s2) \<Rightarrow>
                          (case set_firmware_command s2 evs1 ''crc'' module_id checksum
                                  (flash_memory_addr + page_begin + page_offset) of
                             (crc_page_success, s3, evs3) \<Rightarrow>
                               if crc_page_success
                               then page_loop label module_id bin_buffer bin_size bin_end s3 evs3
                                      (page_begin + page_size) 0 0
                               else if crc_error_count + 1 > crc_error_limit
                               then (s3\<lparr>has_update_error := True,
                                         update_error_message := ''Check crc failed.''\<rparr>,
                                     evs3, page_begin)
                               else page_loop label module_id bin_buffer bin_size bin_end s3 evs3
                                      page_begin 0 (crc_error_count + 1)))))
      else (s, evs, page_begin))"
  by pat_completeness auto
termination
  by (relation "measures
        [\<lambda>(label, module_id, bin_buffer, bin_size, bin_end, s, evs, page_begin, eec, cec).
            nat (bin_end - page_begin),
         \<lambda>(label, module_id, bin_buffer, bin_size, bin_end, s, evs, page_begin, eec, cec).
            Suc crc_error_limit - cec,
         \<lambda>(label, module_id, bin_buffer, bin_size, bin_end, s, evs, page_begin, eec, cec).
            Suc erase_error_limit - eec]")
     (auto simp: page_size_def)

declare page_loop.simps [simp del]


section \<open>After the page loop: trailer, reboot, result\<close>

text \<open>
  The rest of \<open>update_network_module\<close> (and of \<open>update_camera_module\<close>) once the page
  loop is left: progress 99, the end-flash block with its verify header and the version of
  the catalogue entry, \<open>set_end_flash_data\<close>, the reboot broadcast, progress 100, close.
  A version that does not parse raises, and the worker thread ends there: the error comes
  with the state the thread leaves.
\<close>

definition end_flash_phase ::
  "string \<Rightarrow> updater \<Rightarrow> read_event list \<Rightarrow> int
     \<Rightarrow> (py_error \<times> updater) + (bool \<times> updater \<times> read_event list)" where
  "end_flash_phase version_info s evs module_id =
     (let s1 = set_progress s 99
      in case parse_version version_info of
           Inl e \<Rightarrow> Inl (e, s1)
         | Inr version \<Rightarrow>
             (let end_flash_data = end_flash_block (has_update_error s1) version
              in case set_end_flash_data s1 evs module_id end_flash_data of
                   (success_end_flash, s2, evs2) \<Rightarrow>
                     (let s3 = (if \<not> success_end_flash
                                then s2\<lparr>update_error_message := ''version writing failed.'',
                                        has_update_error := True\<rparr>
                                else s2) ;
                          s4 = send_set_module_state s3 0xFFF REBOOT PNP_OFF ;
                          s5 = set_progress s4 100 ;
                          s6 = close s5
                      in Inr (\<not> has_update_error s6, s6, evs2))))"

definition update_module ::
  "string \<Rightarrow> string \<Rightarrow> byte list \<Rightarrow> updater \<Rightarrow> read_event list \<Rightarrow> int
     \<Rightarrow> (py_error \<times> updater) + (bool \<times> updater \<times> read_event list)" where
  "update_module label version_info bin_buffer s evs module_id =
     (let bin_size = sys_getsizeof bin_buffer ;
          bin_end = bin_end_of bin_size
      in case page_loop label module_id bin_buffer bin_size bin_end s evs bin_begin 0 0 of
           (s1, evs1, page_begin) \<Rightarrow> end_flash_phase version_info s1 evs1 module_id)"

text \<open>
  The firmware catalogue and the image files it names:
  \<open>firmware_version_info["network"]["app"]\<close> with the bytes of its \<open>network.bin\<close>, and the
  same for \<open>camera\<close>.
\<close>

record firmware =
  network_app :: string
  network_bin :: "byte list"
  camera_app :: string
  camera_bin :: "byte list"

definition update_network_module ::
  "firmware \<Rightarrow> updater \<Rightarrow> read_event list \<Rightarrow> int
     \<Rightarrow> (py_error \<times> updater) + (bool \<times> updater \<times> read_event list)" where
  "update_network_module fw s evs module_id =
     update_module ''network'' (network_app fw) (network_bin fw) s evs module_id"

definition update_camera_module ::
  "firmware \<Rightarrow> updater \<Rightarrow> read_event list \<Rightarrow> int
     \<Rightarrow> (py_error \<times> updater) + (bool \<times> updater \<times> read_event list)" where
  "update_camera_module fw s evs module_id =
     update_module ''camera'' (camera_app fw) (camera_bin fw) s evs module_id"

section \<open>Identify: \<open>get_connected_module_info\<close>\<close>

text \<open>
  \<open>get_module_type_from_uuid\<close> of \<open>util.module_util\<close> is not in this file; it is the
  parameter \<open>gt\<close>. The timeout is 3 seconds. A script that has run out is a silent
  device: \<open>wait_for_json(3)\<close> gives up after the three seconds and the function returns
  three \<open>None\<close>s.
\<close>

definition is_updatable :: "string \<Rightarrow> bool" where
  "is_updatable module_type = (module_type = ''network'' \<or> module_type = ''camera'')"

definition version_string :: "int \<Rightarrow> string" where
  "version_string module_version_digits =
     join_dot [py_str (drop_bit 13 (module_version_digits AND 0xE000)),
               py_str (drop_bit 8 (module_version_digits AND 0x1F00)),
               py_str (module_version_digits AND 0x00FF)]"

fun get_connected_module_info ::
  "(int \<Rightarrow> string) \<Rightarrow> updater \<Rightarrow> read_event list
     \<Rightarrow> (int option \<times> string option \<times> bool option) \<times> updater \<times> read_event list" where
  "get_connected_module_info gt s [] = ((None, None, None), send_request_network_uuid s, [])"
| "get_connected_module_info gt s (e # evs) =
     (let s1 = send_request_network_uuid s
      in if elapsed e > 3000 then ((None, None, None), s1, evs)
         else (case recved e of
                 NoJson \<Rightarrow> get_connected_module_info gt s1 evs
               | BadJson \<Rightarrow> get_connected_module_info gt s1 evs
               | Json c b \<Rightarrow>
                   if c = 0x05 then
                     (let unpacked_data = unpack_data b [6, 2] ;
                          module_uuid = unpacked_data ! 0 ;
                          module_version_digits = unpacked_data ! 1 ;
                          module_type = gt module_uuid
                      in if is_updatable module_type
                         then ((Some module_uuid, Some (version_string module_version_digits),
                                Some (module_type = ''network'')), s1, evs)
                         else get_connected_module_info gt s1 evs)
                   else if c = 0x0A then
                     (let module_uuid = unpack_data b [6, 2] ! 0 ;
                          module_type = gt module_uuid
                      in if is_updatable module_type
                         then ((Some module_uuid, None, Some (module_type = ''network'')), s1, evs)
                         else get_connected_module_info gt s1 evs)
                   else get_connected_module_info gt s1 evs))"

section \<open>The warning wait of \<open>update_module_firmware\<close>\<close>

definition warning_max_retry :: nat where "warning_max_retry = 5"

text \<open>
  The loop after the reconnect, with its counter \<open>retry\<close>; the result is \<open>is_timeout\<close>.
  The timeout is 10 seconds. An empty read counts in \<open>retry\<close> and goes on to the next
  read without looking at the clock; a script that has run out is a silent device, whose
  empty reads end in the time-out.
\<close>

fun warning_wait ::
  "(int \<Rightarrow> string) \<Rightarrow> updater \<Rightarrow> read_event list \<Rightarrow> nat \<Rightarrow> bool \<times> updater \<times> read_event list" where
  "warning_wait gt s [] retry = (True, s, [])"
| "warning_wait gt s (e # evs) retry =
     (if recved e = NoJson then
        (if retry + 1 > warning_max_retry then (True, s, evs)
         else warning_wait gt s evs (retry + 1))
      else if elapsed e > 10000 then (True, s, evs)
      else (case recved e of
              NoJson \<Rightarrow> (True, s, evs)
            | BadJson \<Rightarrow> warning_wait gt s evs retry
            | Json c b \<Rightarrow>
                if c = 0x0A then
                  (let unpacked_data = unpack_data b [6, 1] ;
                       module_uuid = unpacked_data ! 0 ;
                       warning_type = unpacked_data ! 1 ;
                       module_type = gt module_uuid
                   in if is_updatable module_type then
                        (let s1 = (if \<not> truthy_int (network_uuid s)
                                   then s\<lparr>network_uuid := Some module_uuid,
                                          network_id := Some (module_uuid AND 0xFFF)\<rparr>
                                   else s) ;
                             s2 = s1\<lparr>is_network := Some (module_type = ''network'')\<rparr> ;
                             s3 = (if warning_type \<noteq> 2
                                   then (case network_id s2 of
                                           None \<Rightarrow> s2
                                         | Some nid \<Rightarrow>
                                             send_set_module_state s2 nid UPDATE_FIRMWARE_READY
                                               PNP_OFF)
                                   else s2)
                         in if warning_type = 2 then (False, s3, evs)
                            else warning_wait gt s3 evs retry)
                      else warning_wait gt s evs retry)
                else warning_wait gt s evs retry))"

section \<open>A worker run: \<open>update_module_firmware\<close>\<close>

text \<open>
  The choice of the update procedure once the warning wait is over:
  \<^verbatim>\<open>
  if self.is_network: update_success = self.update_network_module(self.network_id)
  else:               update_success = self.update_camera_module(self.network_id)
  \<close>
\<close>

definition run_module_update ::
  "firmware \<Rightarrow> updater \<Rightarrow> read_event list
     \<Rightarrow> (py_error \<times> updater) + (bool \<times> updater \<times> read_event list)" where
  "run_module_update fw s evs =
     (case network_id s of
        None \<Rightarrow> Inl (TypeError, s)
      | Some module_id \<Rightarrow>
          if truthy_bool (is_network s)
          then update_network_module fw s evs module_id
          else update_camera_module fw s evs module_id)"

text \<open>
  The end of \<open>update_module_firmware\<close>: close the port, \<open>update_error\<close> is \<open>-1\<close> or
  \<open>1\<close>, \<open>update_in_progress\<close> is cleared. An exception of the update procedure ends the
  thread before.
\<close>

definition finish_run ::
  "(py_error \<times> updater) + (bool \<times> updater \<times> read_event list)
     \<Rightarrow> (py_error \<times> updater) + (updater \<times> read_event list)" where
  "finish_run r =
     (case r of
        Inl e \<Rightarrow> Inl e
      | Inr (update_success, s, evs) \<Rightarrow>
          (let s1 = close s ;
               s2 = s1\<lparr>update_error := (if \<not> update_success then - 1 else 1)\<rparr>
           in Inr (s2\<lparr>update_in_progress := False\<rparr>, evs)))"

text \<open>
  The state in which the warning wait starts: \<open>progress\<close> 0, the result of the identify
  phase stored, \<open>network_id\<close> the low 12 bits of the uuid or \<open>0xFFF\<close>, the
  switch to the bootloader sent, the port closed and opened again.
\<close>

definition enter_bootloader ::
  "updater \<Rightarrow> int option \<times> string option \<times> bool option \<Rightarrow> updater" where
  "enter_bootloader s info =
     (case info of
        (uuid, version, is_net) \<Rightarrow>
          (let s1 = s\<lparr>network_uuid := uuid, network_version := version, is_network := is_net\<rparr> ;
               nid = (case network_uuid s1 of
                        None \<Rightarrow> 0xFFF
                      | Some u \<Rightarrow> if u \<noteq> 0 then u AND 0xFFF else 0xFFF) ;
               s2 = s1\<lparr>network_id := Some nid\<rparr> ;
               s3 = send_set_network_module_state s2 nid UPDATE_FIRMWARE PNP_OFF
           in reopen (close s3)))"

definition warning_timeout :: "updater \<Rightarrow> updater" where
  "warning_timeout s =
     close (s\<lparr>update_in_progress := False, update_error := - 1,
              update_error_message := ''Warning timeout''\<rparr>)"

definition update_module_firmware ::
  "(int \<Rightarrow> string) \<Rightarrow> firmware \<Rightarrow> updater \<Rightarrow> read_event list
     \<Rightarrow> (py_error \<times> updater) + (updater \<times> read_event list)" where
  "update_module_firmware gt fw s evs =
     (let s0 = set_progress (s\<lparr>update_in_progress := True\<rparr>) 0
      in case get_connected_module_info gt s0 evs of
           (info, s1, evs1) \<Rightarrow>
             (case warning_wait gt (enter_bootloader s1 info) evs1 0 of
                (is_timeout, s2, evs2) \<Rightarrow>
                  if is_timeout then Inr (warning_timeout s2, evs2)
                  else finish_run (run_module_update fw s2 evs2)))"

section \<open>Simulated devices and images\<close>

text \<open>
  A read that answers a firmware command with an erase failure: a \<open>0x0C\<close> frame with
  \<open>stream_state = ERASE_ERROR\<close>, within the 5 seconds.
\<close>

definition erase_error_reply :: "read_event \<Rightarrow> bool" where
  "erase_error_reply e =
     (elapsed e \<le> 5000 \<and>
      (case recved e of
         Json c b \<Rightarrow> c = 0x0C \<and> unpack_data b [4, 1] ! 1 = ERASE_ERROR
       | _ \<Rightarrow> False))"

definition nak_reply :: read_event where
  "nak_reply = \<lparr>recved = Json 0x0C [0, 0, 0, 0, 6], elapsed = 10\<rparr>"

definition ack_reply :: read_event where
  "ack_reply = \<lparr>recved = Json 0x0C [0, 0, 0, 0, 7], elapsed = 10\<rparr>"

text \<open>The page of the image that starts at \<open>page_begin\<close>, and the test for a page of zeros.\<close>

definition page_at :: "byte list \<Rightarrow> int \<Rightarrow> byte list" where
  "page_at bin_buffer page_begin = slice bin_buffer page_begin (page_begin + page_size)"

definition empty_page :: "byte list \<Rightarrow> bool" where
  "empty_page curr_page = (curr_page = replicate (length curr_page) 0)"

definition page_addr_of :: "int \<Rightarrow> int" where
  "page_addr_of page_begin = flash_memory_addr + page_begin + page_offset"

text \<open>
  An image of three pages: the first page, which the loop never sends, a page of zeros
  and a page of ones.
\<close>

definition image_one_page :: "byte list" where
  "image_one_page = replicate 0x1000 0 @ replicate 0x800 1"

text \<open>
  A table of module types for simulated devices, by the two high bytes of the 6-byte uuid
  (\<open>get_module_type_from_uuid\<close> itself is outside this file).
\<close>

definition sim_module_type :: "int \<Rightarrow> string" where
  "sim_module_type uuid =
     (if drop_bit 32 uuid = 0 then ''network''
      else if drop_bit 32 uuid = 1 then ''camera''
      else ''other'')"

text \<open>
  Reads of the first phases: nothing within the 3 seconds of the identify phase; the
  \<open>0x0A\<close> frame with warning type 2 of a network module with uuid \<open>0x1234\<close> and of a
  camera module with uuid \<open>0x100001234\<close>; the \<open>0x0A\<close> frame with warning type 1 of a
  network module with uuid \<open>0xABC\<close>; an empty read after little time.
\<close>

definition identify_silence :: read_event where
  "identify_silence = \<lparr>recved = NoJson, elapsed = 3001\<rparr>"

definition network_ready :: read_event where
  "network_ready = \<lparr>recved = Json 0x0A [0x34, 0x12, 0, 0, 0, 0, 2], elapsed = 100\<rparr>"

definition camera_ready :: read_event where
  "camera_ready = \<lparr>recved = Json 0x0A [0x34, 0x12, 0, 0, 1, 0, 2], elapsed = 100\<rparr>"

definition network_warning :: read_event where
  "network_warning = \<lparr>recved = Json 0x0A [0xBC, 0x0A, 0, 0, 0, 0, 1], elapsed = 100\<rparr>"




definition demo_firmware :: firmware where
  "demo_firmware =
     \<lparr>network_app = ''v1.2.3'', network_bin = image_one_page,
      camera_app = ''v1.0.7'', camera_bin = image_one_page\<rparr>"

definition reboot_packet :: packet where
  "reboot_packet = \<lparr>cmd = 0x09, sid = 0, did = 0xFFF, payload = State REBOOT PNP_OFF\<rparr>"

text \<open>
  Reading a finished run: its last state when the thread ended without an exception, and
  how often a packet was written.
\<close>

definition final_state ::
  "(py_error \<times> updater) + (updater \<times> read_event list) \<Rightarrow> updater option" where
  "final_state r = (case r of Inl e \<Rightarrow> None | Inr (s, evs) \<Rightarrow> Some s)"

definition count_sent :: "packet \<Rightarrow> updater \<Rightarrow> nat" where
  "count_sent p s = count_list (sent s) p"

section \<open>Observations on runs: the warning wait and the packets of the trailer\<close>

text \<open>
  A read that ends the warning wait with success: in time, and a \<open>0x0A\<close> frame of a
  network or camera module with warning type 2.
\<close>

definition ready_frame :: "(int \<Rightarrow> string) \<Rightarrow> read_event \<Rightarrow> bool" where
  "ready_frame gt e =
     (elapsed e \<le> 10000 \<and>
      (case recved e of
         Json c b \<Rightarrow> c = 0x0A \<and> is_updatable (gt (unpack_data b [6, 1] ! 0)) \<and>
                     unpack_data b [6, 1] ! 1 = 2
       | _ \<Rightarrow> False))"




text \<open>
  The uuid of a read that is a \<open>0x0A\<close> frame of a network or camera module, and the uuid
  the warning wait keeps of those it has read, in order, when it started with none: the
  first that is not zero (\<open>if not self.network_uuid\<close> takes a uuid of zero for none).
\<close>

definition warning_frame_uuid :: "(int \<Rightarrow> string) \<Rightarrow> read_event \<Rightarrow> int option" where
  "warning_frame_uuid gt e =
     (case recved e of
        Json c b \<Rightarrow>
          if c = 0x0A \<and> is_updatable (gt (unpack_data b [6, 1] ! 0))
          then Some (unpack_data b [6, 1] ! 0) else None
      | _ \<Rightarrow> None)"

definition adopted_uuid :: "int list \<Rightarrow> int" where
  "adopted_uuid us = (case find (\<lambda>u. u \<noteq> 0) us of Some u \<Rightarrow> u | None \<Rightarrow> 0)"

text \<open>Five empty reads in a row, each a \<open>wait_for_json()\<close> that gave up.\<close>

definition five_silent_reads :: "read_event list" where
  "five_silent_reads =
     [\<lparr>recved = NoJson, elapsed = 2001\<rparr>, \<lparr>recved = NoJson, elapsed = 4002\<rparr>,
      \<lparr>recved = NoJson, elapsed = 6003\<rparr>, \<lparr>recved = NoJson, elapsed = 8004\<rparr>,
      \<lparr>recved = NoJson, elapsed = 10005\<rparr>]"

text \<open>
  A step that only writes packets: the state after it is the state before with packets
  appended to \<open>sent\<close>. And a read that answers a firmware command with success: a
  \<open>0x0C\<close> frame with \<open>CRC_COMPLETE\<close> or \<open>ERASE_COMPLETE\<close>, within the 5 seconds.
\<close>

definition appends_sent :: "updater \<Rightarrow> updater \<Rightarrow> bool" where
  "appends_sent s s' = (\<exists>tr. s' = s\<lparr>sent := sent s @ tr\<rparr>)"

definition complete_reply :: "read_event \<Rightarrow> bool" where
  "complete_reply e =
     (elapsed e \<le> 5000 \<and>
      (case recved e of
         Json c b \<Rightarrow> c = 0x0C \<and> (unpack_data b [4, 1] ! 1 = CRC_COMPLETE \<or>
                                    unpack_data b [4, 1] ! 1 = ERASE_COMPLETE)
       | _ \<Rightarrow> False))"

text \<open>
  The same with a condition on the packets written: every packet appended satisfies
  \<open>R\<close>.
\<close>

definition sends_only :: "(packet \<Rightarrow> bool) \<Rightarrow> updater \<Rightarrow> updater \<Rightarrow> bool" where
  "sends_only R s s' = (\<exists>tr. s' = s\<lparr>sent := sent s @ tr\<rparr> \<and> list_all R tr)"

text \<open>
  The packets that write the trailer for a 16-byte block: the erase of the trailer page,
  the two data packets with the halves of the block, and the CRC request over them.
\<close>

definition trailer_erase_packet :: "int \<Rightarrow> packet" where
  "trailer_erase_packet module_id =
     firmware_command_packet ''erase'' module_id erase_page_num end_flash_addr"

definition trailer_data_packets :: "int \<Rightarrow> byte list \<Rightarrow> packet list" where
  "trailer_data_packets module_id end_flash_data =
     [\<lparr>cmd = 0x0B, sid = 0, did = module_id, payload = Data (slice end_flash_data 0 8)\<rparr>,
      \<lparr>cmd = 0x0B, sid = 1, did = module_id, payload = Data (slice end_flash_data 8 16)\<rparr>]"

definition trailer_crc_packet :: "int \<Rightarrow> byte list \<Rightarrow> packet" where
  "trailer_crc_packet module_id end_flash_data =
     firmware_command_packet ''crc'' module_id
       (calc_crc64 (slice end_flash_data 8 16) (calc_crc64 (slice end_flash_data 0 8) 0))
       end_flash_addr"

definition trailer_packet :: "int \<Rightarrow> byte list \<Rightarrow> packet \<Rightarrow> bool" where
  "trailer_packet module_id end_flash_data p =
     (p = trailer_erase_packet module_id
      \<or> p = trailer_data_packets module_id end_flash_data ! 0
      \<or> p = trailer_data_packets module_id end_flash_data ! 1
      \<or> p = trailer_crc_packet module_id end_flash_data)"

text \<open>
  The first part of a worker run, up to the end of the warning wait, with the result
  \<open>is_timeout\<close> of the wait; and what the run then hands to the update procedure it
  chooses: the word of its messages, the version of the catalogue, the image, and the
  page loop on them.
\<close>

definition warning_phase ::
  "(int \<Rightarrow> string) \<Rightarrow> updater \<Rightarrow> read_event list \<Rightarrow> bool \<times> updater \<times> read_event list" where
  "warning_phase gt s evs =
     (let s0 = set_progress (s\<lparr>update_in_progress := True\<rparr>) 0
      in case get_connected_module_info gt s0 evs of
           (info, s1, evs1) \<Rightarrow> warning_wait gt (enter_bootloader s1 info) evs1 0)"

definition chosen_label :: "updater \<Rightarrow> string" where
  "chosen_label s = (if truthy_bool (is_network s) then ''network'' else ''camera'')"

definition chosen_version :: "firmware \<Rightarrow> updater \<Rightarrow> string" where
  "chosen_version fw s = (if truthy_bool (is_network s) then network_app fw else camera_app fw)"

definition chosen_bin :: "firmware \<Rightarrow> updater \<Rightarrow> byte list" where
  "chosen_bin fw s = (if truthy_bool (is_network s) then network_bin fw else camera_bin fw)"

definition page_phase ::
  "firmware \<Rightarrow> updater \<Rightarrow> read_event list \<Rightarrow> int \<Rightarrow> updater \<times> read_event list \<times> int" where
  "page_phase fw s evs module_id =
     page_loop (chosen_label s) module_id (chosen_bin fw s) (sys_getsizeof (chosen_bin fw s))
       (bin_end_of (sys_getsizeof (chosen_bin fw s))) s evs bin_begin 0 0"

text \<open>The state a run leaves when its thread ended with an exception.\<close>

definition raised_state ::
  "(py_error \<times> updater) + (updater \<times> read_event list) \<Rightarrow> updater option" where
  "raised_state r = (case r of Inl (e, s) \<Rightarrow> Some s | Inr v \<Rightarrow> None)"

section \<open>The CRC engine refines its specification\<close>

lemma and_mask32: "(x::int) AND 0xFFFFFFFF = take_bit 32 x"
proof -
  have "(0xFFFFFFFF::int) = mask 32" by (simp add: mask_eq_exp_minus_1)
  then show ?thesis by (simp add: take_bit_eq_mask)
qed

lemma and_bit31: "(x::int) AND push_bit 31 1 \<noteq> 0 \<longleftrightarrow> bit x 31"
  using and_exp_eq_0_iff_not_bit[of x 31] by (simp add: push_bit_eq_mult)

lemma crc32_round_uint: "crc32_round (uint w) = uint (spec_crc_shift w)"
proof -
  have p: "uint (0x04C11DB7 :: 32 word) = 0x4C11DB7" by simp
  have s: "uint (push_bit 1 w) = take_bit 32 (push_bit 1 (uint w))"
    by (simp only: unsigned_push_bit_eq take_bit_push_bit) (simp add: take_bit_push_bit)
  have b: "bit (uint w) 31 \<longleftrightarrow> bit w 31" by (simp add: bit_uint_iff)
  have t: "take_bit 32 (0x4C11DB7::int) = 0x4C11DB7" by simp
  show ?thesis
    unfolding crc32_round_def spec_crc_shift_def and_mask32 and_bit31 b
    by (simp only: if_distrib[of uint] if_distrib[of "take_bit 32"] unsigned_xor_eq s p
          take_bit_xor t)
qed

lemma crc32_rounds_uint: "crc32_rounds n (uint w) = uint ((spec_crc_shift ^^ n) w)"
  by (induction n arbitrary: w) (simp_all add: crc32_round_uint funpow_swap1)

lemma crc32_round_range: "0 \<le> crc32_round x \<and> crc32_round x < 2 ^ 32"
  unfolding crc32_round_def and_mask32
  using take_bit_int_less_exp[of 32] by (simp only: take_bit_nonnegative)

lemma crc32_rounds_range: "0 < n \<Longrightarrow> 0 \<le> crc32_rounds n x \<and> crc32_rounds n x < 2 ^ 32"
proof (induction n arbitrary: x)
  case 0
  then show ?case by simp
next
  case (Suc n)
  show ?case
  proof (cases n)
    case 0
    then show ?thesis using crc32_round_range[of x] by simp
  next
    case (Suc m)
    then show ?thesis using Suc.IH[of "crc32_round x"] by simp
  qed
qed

lemma from_bytes_little_nonneg: "0 \<le> from_bytes_little d"
  by (induction d) auto

lemma from_bytes_little_bound: "from_bytes_little d < 2 ^ (8 * length d)"
proof (induction d)
  case Nil
  show ?case by simp
next
  case (Cons b bs)
  have "uint b < 256" using uint_bounded[of b] by simp
  then have "uint b + 256 * from_bytes_little bs < 256 * (from_bytes_little bs + 1)" by simp
  also have "\<dots> \<le> 256 * 2 ^ (8 * length bs)" using Cons by (simp add: mult_left_mono)
  also have "\<dots> = 2 ^ (8 * length (b # bs))" by (simp add: power_add)
  finally show ?case by simp
qed

lemma uint_little_endian_u32:
  assumes "length d \<le> 4"
  shows "uint (little_endian_u32 d) = from_bytes_little d"
proof -
  from assms have "(2::int) ^ (8 * length d) \<le> 2 ^ 32" by (intro power_increasing) auto
  with from_bytes_little_bound[of d] have "from_bytes_little d < 2 ^ 32" by linarith
  then show ?thesis unfolding little_endian_u32_def
    using from_bytes_little_nonneg[of d] by (simp add: uint_word_of_int take_bit_int_eq_self)
qed

lemma calc_crc32_refines:
  "length d \<le> 4 \<Longrightarrow> calc_crc32 d (uint c) = uint (spec_crc32_step d c)"
  unfolding calc_crc32_def spec_crc32_step_def
  by (simp add: crc32_rounds_uint[symmetric] unsigned_xor_eq uint_little_endian_u32)

lemma calc_crc32_range: "0 \<le> calc_crc32 data crc \<and> calc_crc32 data crc < 2 ^ 32"
  unfolding calc_crc32_def by (rule crc32_rounds_range) simp

lemma and_0xFF_mod: "(v::int) AND 0xFF = v mod 256"
proof -
  have "(0xFF::int) = mask 8" by (simp add: mask_eq_exp_minus_1)
  then have "v AND 0xFF = take_bit 8 v" by (simp add: take_bit_eq_mask)
  then show ?thesis by (simp add: take_bit_eq_mod)
qed

lemma uint_byte_mod: "uint (word_of_int (v mod 256) :: byte) = v mod 256"
  by (simp add: uint_word_of_int take_bit_eq_mod)

lemma from_bytes_little_le_bytes: "from_bytes_little (le_bytes n v) = v mod 2 ^ (8 * n)"
proof (induction n arbitrary: v)
  case 0
  show ?case by simp
next
  case (Suc n)
  have "from_bytes_little (le_bytes (Suc n) v) = v mod 256 + 256 * ((v div 256) mod 2 ^ (8 * n))"
    by (simp add: and_0xFF_mod uint_byte_mod Suc drop_bit_eq_div)
  also have "\<dots> = v mod (256 * 2 ^ (8 * n))"
    using zmod_zmult2_eq[of "2 ^ (8 * n)" v 256] by simp
  also have "\<dots> = v mod 2 ^ (8 * Suc n)" by (simp add: power_add)
  finally show ?case .
qed

text \<open>
  C2. For a 4-byte chunk and a 32-bit accumulator, \<open>calc_crc32\<close> returns what the
  specification's step computes: the accumulator XOR the little-endian u32 of the chunk,
  then 32 times a shift left by one, XOR-ed with \<open>0x04C11DB7\<close> when bit 31 was set,
  within 32 bits. For an 8-byte chunk \<open>calc_crc64\<close> is that step on bytes 0..4 and then
  on bytes 4..8.
\<close>

theorem calc_crc_refines_spec_step:
  "(length d = 4 \<longrightarrow> calc_crc32 d (uint c) = uint (spec_crc32_step d c)) \<and>
   (length d8 = 8 \<longrightarrow>
      calc_crc64 d8 (uint c) = calc_crc32 (drop 4 d8) (calc_crc32 (take 4 d8) (uint c)) \<and>
      calc_crc64 d8 (uint c) = uint (spec_crc64_step d8 c))"
  unfolding calc_crc64_def spec_crc64_step_def
  by (simp add: calc_crc32_refines)

theorem calc_crc_refines_spec_step_witness:
  "length [1, 2, 3, 4 :: byte] = 4 \<and> length [1, 2, 3, 4, 5, 6, 7, 8 :: byte] = 8 \<and>
   calc_crc32 [1, 2, 3, 4] (uint (7 :: 32 word)) = uint (spec_crc32_step [1, 2, 3, 4] 7) \<and>
   calc_crc64 [1, 2, 3, 4, 5, 6, 7, 8] (uint (7 :: 32 word))
     = uint (spec_crc64_step [1, 2, 3, 4, 5, 6, 7, 8] 7)"
proof -
  have a: "length [1, 2, 3, 4 :: byte] = 4" by simp
  have b: "length [1, 2, 3, 4, 5, 6, 7, 8 :: byte] = 8" by simp
  show ?thesis
    using calc_crc_refines_spec_step[of "[1, 2, 3, 4]" 7 "[1, 2, 3, 4, 5, 6, 7, 8]"] a b
    by blast
qed

text \<open>
  C10. For a byte string of at most 8 bytes (a short last chunk included) and a
  non-negative accumulator, \<open>calc_crc32\<close> and \<open>calc_crc64\<close> return a value in
  \<open>[0, 2^32)\<close>; the four CRC bytes of the \<open>0x0D\<close> packet therefore hold the checksum
  whole: read back little-endian they give the checksum again.
\<close>

theorem calc_crc_fits_crc_field:
  assumes "length data \<le> 8" and "0 \<le> crc"
  shows "0 \<le> calc_crc32 data crc \<and> calc_crc32 data crc < 2 ^ 32 \<and>
         0 \<le> calc_crc64 data crc \<and> calc_crc64 data crc < 2 ^ 32 \<and>
         (\<exists>bs. payload (firmware_command_packet ''crc'' module_id (calc_crc64 data crc) page_addr)
                  = Data bs \<and>
               from_bytes_little (take 4 bs) = calc_crc64 data crc)"
proof -
  have r64: "0 \<le> calc_crc64 data crc \<and> calc_crc64 data crc < 2 ^ 32"
    unfolding calc_crc64_def by (rule calc_crc32_range)
  have len: "length (le_bytes 4 v) = 4" for v
    by (simp add: eval_nat_numeral)
  have "from_bytes_little (le_bytes 4 (calc_crc64 data crc)) = calc_crc64 data crc"
    using r64 by (simp add: from_bytes_little_le_bytes)
  then show ?thesis
    using r64 calc_crc32_range[of data crc] len
    by (simp add: firmware_command_packet_def Let_def)
qed

theorem calc_crc_fits_crc_field_witness:
  "length [1, 2, 3 :: byte] \<le> 8 \<and> (0::int) \<le> 5 \<and>
   0 \<le> calc_crc32 [1, 2, 3] 5 \<and> calc_crc32 [1, 2, 3] 5 < 2 ^ 32 \<and>
   0 \<le> calc_crc64 [1, 2, 3] 5 \<and> calc_crc64 [1, 2, 3] 5 < 2 ^ 32"
  using calc_crc_fits_crc_field[of "[1, 2, 3]" 5] by simp

section \<open>The end-flash block\<close>

text \<open>
  C8. For the version string \<open>1.2.3\<close> and no update error the version number is
  \<open>0x2203\<close> and the end-flash block is \<open>0xAA\<close>, five zero bytes, \<open>0x03, 0x22\<close>, four
  zero bytes, \<open>0x00, 0x90, 0x00, 0x08\<close>; against a device that acknowledges, the two data
  packets of the trailer carry its two halves.
\<close>

theorem end_flash_block_1_2_3:
  "parse_version ''1.2.3'' = Inr 0x2203 \<and>
   end_flash_block False 0x2203
     = [0xAA, 0, 0, 0, 0, 0, 0x03, 0x22, 0, 0, 0, 0, 0x00, 0x90, 0x00, 0x08] \<and>
   map payload (filter (\<lambda>p. cmd p = 0x0B)
     (case end_flash_phase ''1.2.3'' init_updater
             (replicate 2 \<lparr>recved = Json 0x0C [0, 0, 0, 0, 7], elapsed = 0\<rparr>) 5 of
        Inr (ok, s, evs) \<Rightarrow> sent s
      | Inl e \<Rightarrow> []))
     = [Data [0xAA, 0, 0, 0, 0, 0, 0x03, 0x22], Data [0, 0, 0, 0, 0x00, 0x90, 0x00, 0x08]]"
  by code_simp

section \<open>The bound of the page loop\<close>

text \<open>
  C6. The claim takes \<open>size\<close> to be the length of the file. \<open>update_network_module\<close>
  takes \<open>sys.getsizeof\<close> of the buffer: for a file of 4095 bytes the loop bound is 4096,
  where the length of the file gives 2048.
\<close>

theorem bin_end_uses_getsizeof:
  "bin_end_of (sys_getsizeof (replicate 4095 1)) = 4096 \<and>
   int (length (replicate 4095 (1 :: byte)))
     - ((int (length (replicate 4095 (1 :: byte))) - bin_begin) mod page_size) = 2048"
  by (simp add: bin_end_of_def sys_getsizeof_def bin_begin_def page_size_def)

lemma receive_nak:
  "list_all erase_error_reply evs \<Longrightarrow> receive_firmware_command_response evs = (False, drop 1 evs)"
  by (cases evs) (auto simp: erase_error_reply_def split: rx.splits)

lemma list_all_drop: "list_all P xs \<Longrightarrow> list_all P (drop n xs)"
  by (auto simp: list_all_iff dest: in_set_dropD)

lemma write_pkt_open: "is_open s \<Longrightarrow> write_pkt s p = s\<lparr>sent := sent s @ [p]\<rparr>"
  by (simp add: write_pkt_def)

lemma erase_retry_nak:
  "k + n = Suc max_retry \<Longrightarrow> 0 < n \<Longrightarrow> is_open s \<Longrightarrow> list_all erase_error_reply evs \<Longrightarrow>
   erase_retry s evs op mid c a k
     = (False, s\<lparr>sent := sent s @ replicate n (firmware_command_packet op mid c a)\<rparr>, drop n evs)"
proof (induction n arbitrary: k s evs)
  case 0
  then show ?case by simp
next
  case (Suc n)
  let ?s1 = "s\<lparr>sent := sent s @ [firmware_command_packet op mid c a]\<rparr>"
  show ?case
  proof (cases "n = 0")
    case True
    with Suc.prems show ?thesis
      by (subst erase_retry.simps)
         (simp add: receive_nak send_firmware_command_def write_pkt_open Let_def)
  next
    case False
    have ih: "erase_retry ?s1 (drop 1 evs) op mid c a (Suc k)
       = (False, ?s1\<lparr>sent := sent ?s1 @ replicate n (firmware_command_packet op mid c a)\<rparr>,
          drop n (drop 1 evs))"
      using Suc.prems False by (intro Suc.IH) (auto simp: list_all_drop)
    from Suc.prems False have "\<not> Suc k > max_retry" by simp
    then show ?thesis using Suc.prems ih
      by (subst erase_retry.simps)
         (simp add: receive_nak send_firmware_command_def write_pkt_open Let_def
            replicate_app_Cons_same)
  qed
qed

lemma set_firmware_command_nak:
  assumes "is_open s" "list_all erase_error_reply evs"
  shows "set_firmware_command s evs ''erase'' mid c a
     = (False, s\<lparr>sent := sent s @ replicate (Suc (Suc max_retry)) (firmware_command_packet ''erase'' mid c a)\<rparr>,
        drop (Suc (Suc max_retry)) evs)"
proof -
  let ?s1 = "s\<lparr>sent := sent s @ [firmware_command_packet ''erase'' mid c a]\<rparr>"
  have "erase_retry ?s1 (drop 1 evs) ''erase'' mid c a 0
     = (False, ?s1\<lparr>sent := sent ?s1 @ replicate (Suc max_retry) (firmware_command_packet ''erase'' mid c a)\<rparr>,
        drop (Suc max_retry) (drop 1 evs))"
    using assms by (intro erase_retry_nak) (auto simp: list_all_drop)
  then show ?thesis using assms
    by (simp add: set_firmware_command_def receive_nak send_firmware_command_def write_pkt_open
          Let_def replicate_app_Cons_same)
qed


lemma page_loop_skip:
  assumes "p < be" "empty_page (page_at buf p)"
  shows "page_loop l m buf bs be s evs p e c
       = page_loop l m buf bs be (set_progress s (100 * p div be)) evs (p + page_size) e c"
  using assms
  by (subst page_loop.simps) (simp add: Let_def empty_page_def page_at_def)

lemma page_loop_erase_fail:
  assumes "p < be" "\<not> empty_page (page_at buf p)" "is_open s" "list_all erase_error_reply evs"
  shows "page_loop l m buf bs be s evs p e c
       = (if e + 1 > erase_error_limit
          then ((set_progress s (100 * p div be))
                     \<lparr>sent := sent s @ replicate (Suc (Suc max_retry))
                        (firmware_command_packet ''erase'' m erase_page_num (page_addr_of p)),
                      has_update_error := True,
                      update_error_message := erase_failed_message l m\<rparr>,
                   drop (Suc (Suc max_retry)) evs, p)
          else page_loop l m buf bs be
                 ((set_progress s (100 * p div be))
                     \<lparr>sent := sent s @ replicate (Suc (Suc max_retry))
                        (firmware_command_packet ''erase'' m erase_page_num (page_addr_of p))\<rparr>)
                 (drop (Suc (Suc max_retry)) evs) p (e + 1) c)"
proof -
  have o: "is_open (set_progress s (100 * p div be))" using assms(3) by (simp add: set_progress_def)
  have sn: "sent (set_progress s (100 * p div be)) = sent s" by (simp add: set_progress_def)
  show ?thesis
    using assms(1,2)
    by (subst page_loop.simps)
       (simp add: Let_def empty_page_def page_at_def set_firmware_command_nak[OF o assms(4)]
          page_addr_of_def sn)
qed

lemma page_loop_skip_many:
  assumes "\<forall>j<k. empty_page (page_at buf (q + int j * page_size))"
      and "q + int k * page_size \<le> be"
  shows "\<exists>s1. page_loop l m buf bs be s evs q e c
              = page_loop l m buf bs be s1 evs (q + int k * page_size) e c
            \<and> sent s1 = sent s \<and> is_open s1 = is_open s
            \<and> update_error s1 = update_error s"
  using assms
proof (induction k arbitrary: q s)
  case 0
  then show ?case by auto
next
  case (Suc k)
  have e0: "empty_page (page_at buf q)" using Suc.prems(1)[rule_format, of 0] by simp
  have lt: "q < be" using Suc.prems(2) by (simp add: page_size_def)
  have "\<forall>j<k. empty_page (page_at buf ((q + page_size) + int j * page_size))"
  proof (intro allI impI)
    fix j assume "j < k"
    then have "Suc j < Suc k" by simp
    then have "empty_page (page_at buf (q + int (Suc j) * page_size))"
      using Suc.prems(1) by blast
    then show "empty_page (page_at buf ((q + page_size) + int j * page_size))"
      by (simp add: algebra_simps)
  qed
  moreover have "(q + page_size) + int k * page_size \<le> be"
    using Suc.prems(2) by (simp add: algebra_simps)
  ultimately obtain s1 where
    s1: "page_loop l m buf bs be (set_progress s (100 * q div be)) evs (q + page_size) e c
           = page_loop l m buf bs be s1 evs ((q + page_size) + int k * page_size) e c"
        "sent s1 = sent (set_progress s (100 * q div be))"
        "is_open s1 = is_open (set_progress s (100 * q div be))"
        "update_error s1 = update_error (set_progress s (100 * q div be))"
    using Suc.IH[of "q + page_size" "set_progress s (100 * q div be)"] by blast
  have "(q + page_size) + int k * page_size = q + int (Suc k) * page_size"
    by (simp add: algebra_simps)
  with s1 page_loop_skip[OF lt e0] show ?case
    by (auto simp: set_progress_def)
qed

lemma page_loop_nak_result:
  assumes "is_open s" and "list_all erase_error_reply evs"
      and "\<forall>j<k. empty_page (page_at bin_buffer (bin_begin + int j * page_size))"
      and "\<not> empty_page (page_at bin_buffer (bin_begin + int k * page_size))"
      and "bin_begin + int k * page_size < bin_end"
  shows "\<exists>s'. page_loop label module_id bin_buffer bin_size bin_end s evs bin_begin 0 0
                  = (s', drop 21 evs, bin_begin + int k * page_size)
           \<and> sent s' = sent s @ replicate 21 (firmware_command_packet ''erase'' module_id
                  erase_page_num (page_addr_of (bin_begin + int k * page_size)))
           \<and> has_update_error s' \<and> is_open s'
           \<and> update_error_message s' = erase_failed_message label module_id
           \<and> update_error s' = update_error s"
proof -
  let ?p = "bin_begin + int k * page_size"
  let ?n = "Suc (Suc max_retry)"
  let ?pkt = "firmware_command_packet ''erase'' module_id erase_page_num (page_addr_of ?p)"
  let ?v = "100 * ?p div bin_end"
  obtain s1 where s1:
    "page_loop label module_id bin_buffer bin_size bin_end s evs bin_begin 0 0
       = page_loop label module_id bin_buffer bin_size bin_end s1 evs ?p 0 0"
    "sent s1 = sent s" "is_open s1 = is_open s" "update_error s1 = update_error s"
    using page_loop_skip_many[OF assms(3), of bin_end label module_id bin_size s evs 0 0] assms(5)
    by auto
  let ?s2 = "(set_progress s1 ?v)\<lparr>sent := sent s1 @ replicate ?n ?pkt\<rparr>"
  let ?s3 = "(set_progress ?s2 ?v)\<lparr>sent := sent ?s2 @ replicate ?n ?pkt\<rparr>"
  let ?s4 = "(set_progress ?s3 ?v)\<lparr>sent := sent ?s3 @ replicate ?n ?pkt,
                has_update_error := True,
                update_error_message := erase_failed_message label module_id\<rparr>"
  have o1: "is_open s1" using s1 assms(1) by simp
  have o2: "is_open ?s2" using o1 by (simp add: set_progress_def)
  have o3: "is_open ?s3" using o1 by (simp add: set_progress_def)
  have a1: "list_all erase_error_reply (drop ?n evs)" using assms(2) by (rule list_all_drop)
  have a2: "list_all erase_error_reply (drop ?n (drop ?n evs))" using a1 by (rule list_all_drop)
  have l0: "\<not> (0::nat) + 1 > erase_error_limit" by (simp add: erase_error_limit_def)
  have l1: "\<not> ((0::nat) + 1) + 1 > erase_error_limit" by (simp add: erase_error_limit_def)
  have l2: "(((0::nat) + 1) + 1) + 1 > erase_error_limit" by (simp add: erase_error_limit_def)
  have r1: "page_loop label module_id bin_buffer bin_size bin_end s1 evs ?p 0 0
          = page_loop label module_id bin_buffer bin_size bin_end ?s2 (drop ?n evs) ?p (0 + 1) 0"
    by (simp only: page_loop_erase_fail[OF assms(5,4) o1 assms(2), of label module_id bin_size 0 0]
          l0 if_False)
  have r2: "page_loop label module_id bin_buffer bin_size bin_end ?s2 (drop ?n evs) ?p (0 + 1) 0
          = page_loop label module_id bin_buffer bin_size bin_end ?s3 (drop ?n (drop ?n evs)) ?p
              ((0 + 1) + 1) 0"
    by (simp only: page_loop_erase_fail[OF assms(5,4) o2 a1, of label module_id bin_size "0 + 1" 0]
          l1 if_False)
  have r3: "page_loop label module_id bin_buffer bin_size bin_end ?s3 (drop ?n (drop ?n evs)) ?p
              ((0 + 1) + 1) 0
          = (?s4, drop ?n (drop ?n (drop ?n evs)), ?p)"
    by (simp only: page_loop_erase_fail[OF assms(5,4) o3 a2, of label module_id bin_size
            "(0 + 1) + 1" 0] l2 if_True)
  have res: "page_loop label module_id bin_buffer bin_size bin_end s evs bin_begin 0 0
          = (?s4, drop ?n (drop ?n (drop ?n evs)), ?p)"
    using s1(1) r1 r2 r3 by (rule trans[OF trans[OF trans]])
  have snt: "sent ?s4 = sent s @ replicate (3 * ?n) ?pkt"
    by (simp add: set_progress_def s1(2) replicate_add[symmetric] del: replicate_Suc)
  have "?n + (?n + ?n) = 21" by (simp add: max_retry_def)
  then have dr: "drop ?n (drop ?n (drop ?n evs)) = drop 21 evs"
    by (simp only: drop_drop)
  have "3 * ?n = 21" by (simp add: max_retry_def)
  with snt have snt': "sent ?s4 = sent s @ replicate 21 ?pkt" by (simp only:)
  have he: "has_update_error ?s4" by simp
  have op: "is_open ?s4" using o1 by (simp add: set_progress_def)
  have ue: "update_error ?s4 = update_error s" using s1(4) by (simp add: set_progress_def)
  have msg: "update_error_message ?s4 = erase_failed_message label module_id" by simp
  from res dr have res': "page_loop label module_id bin_buffer bin_size bin_end s evs bin_begin 0 0
          = (?s4, drop 21 evs, ?p)" by (simp only:)
  from res' snt' he op msg ue show ?thesis by blast
qed


text \<open>
  C1 (as amended). Against a device that answers every erase request with an erase
  failure, the page loop passes the pages of zeros, makes three erase rounds for the first
  page that is not empty, each round one call of \<open>set_firmware_command\<close> that sends the
  erase command and sends it again while it fails, and then leaves the loop with
  \<open>has_update_error\<close> set and the message \<open>erase flash failed.\<close>; \<open>page_begin\<close> stays at
  that page and every packet sent is the erase command of that page.
\<close>

theorem page_loop_erase_nak_aborts:
  assumes "is_open s" and "list_all erase_error_reply evs"
      and "\<forall>j<k. empty_page (page_at bin_buffer (bin_begin + int j * page_size))"
      and "\<not> empty_page (page_at bin_buffer (bin_begin + int k * page_size))"
      and "bin_begin + int k * page_size < bin_end"
  shows "\<exists>s' n. page_loop label module_id bin_buffer bin_size bin_end s evs bin_begin 0 0
                  = (s', drop (3 * n) evs, bin_begin + int k * page_size)
           \<and> sent (fst (snd (set_firmware_command s evs ''erase'' module_id erase_page_num
                  (page_addr_of (bin_begin + int k * page_size)))))
               = sent s @ replicate n (firmware_command_packet ''erase'' module_id erase_page_num
                    (page_addr_of (bin_begin + int k * page_size)))
           \<and> 1 < n
           \<and> sent s' = sent s @ replicate (3 * n) (firmware_command_packet ''erase'' module_id
                  erase_page_num (page_addr_of (bin_begin + int k * page_size)))
           \<and> has_update_error s'
           \<and> update_error_message s' = erase_failed_message label module_id"
proof -
  obtain s' where r:
    "page_loop label module_id bin_buffer bin_size bin_end s evs bin_begin 0 0
       = (s', drop 21 evs, bin_begin + int k * page_size)"
    "sent s' = sent s @ replicate 21 (firmware_command_packet ''erase'' module_id
                  erase_page_num (page_addr_of (bin_begin + int k * page_size)))"
    "has_update_error s'" "update_error_message s' = erase_failed_message label module_id"
    using page_loop_nak_result[OF assms] by blast
  have one: "sent (fst (snd (set_firmware_command s evs ''erase'' module_id erase_page_num
                  (page_addr_of (bin_begin + int k * page_size)))))
           = sent s @ replicate 7 (firmware_command_packet ''erase'' module_id erase_page_num
                  (page_addr_of (bin_begin + int k * page_size)))"
    by (simp add: set_firmware_command_nak[OF assms(1,2)] max_retry_def eval_nat_numeral)
  have e: "(21::nat) = 3 * 7" by simp
  have lt: "(1::nat) < 7" by simp
  from r one lt show ?thesis unfolding e by blast
qed

lemma nak_script: "list_all erase_error_reply (replicate n nak_reply)"
  by (simp add: list_all_iff erase_error_reply_def nak_reply_def ERASE_ERROR_def)

lemma image_one_page_first_empty:
  "\<forall>j<(1::nat). empty_page (page_at image_one_page (bin_begin + int j * page_size))"
  by (simp add: empty_page_def page_at_def image_one_page_def bin_begin_def page_size_def
        slice_def)

lemma image_one_page_second_full:
  "\<not> empty_page (page_at image_one_page (bin_begin + int 1 * page_size))"
  by (simp add: empty_page_def page_at_def image_one_page_def bin_begin_def page_size_def
        slice_def)

lemma image_one_page_bin_end:
  "bin_begin + int 1 * page_size < bin_end_of (sys_getsizeof image_one_page)"
  by (simp add: image_one_page_def bin_begin_def page_size_def bin_end_of_def sys_getsizeof_def)

theorem page_loop_erase_nak_aborts_witness:
  "is_open init_updater \<and> list_all erase_error_reply (replicate 30 nak_reply) \<and>
   empty_page (page_at image_one_page (bin_begin + int 0 * page_size)) \<and>
   \<not> empty_page (page_at image_one_page (bin_begin + int 1 * page_size)) \<and>
   bin_begin + int 1 * page_size < bin_end_of (sys_getsizeof image_one_page) \<and>
   (\<exists>s' n. page_loop ''network'' 5 image_one_page (sys_getsizeof image_one_page)
              (bin_end_of (sys_getsizeof image_one_page)) init_updater
              (replicate 30 nak_reply) bin_begin 0 0
             = (s', drop (3 * n) (replicate 30 nak_reply), bin_begin + int 1 * page_size)
      \<and> 1 < n
      \<and> sent s' = sent init_updater @ replicate (3 * n)
           (firmware_command_packet ''erase'' 5 erase_page_num
              (page_addr_of (bin_begin + int 1 * page_size)))
      \<and> has_update_error s'
      \<and> update_error_message s' = erase_failed_message ''network'' 5)"
proof -
  have o: "is_open init_updater" by (simp add: init_updater_def)
  have z: "empty_page (page_at image_one_page (bin_begin + int 0 * page_size))"
    using image_one_page_first_empty by blast
  show ?thesis
    using z page_loop_erase_nak_aborts[where label = "''network''" and module_id = 5
        and bin_size = "sys_getsizeof image_one_page" and evs = "replicate 30 nak_reply",
        OF o nak_script image_one_page_first_empty image_one_page_second_full
        image_one_page_bin_end]
      o nak_script[of 30] image_one_page_first_empty image_one_page_second_full
      image_one_page_bin_end
    by blast
qed

text \<open>
  The claim as it stands counts three erase attempts. On the image of three pages, with a
  device that fails every erase, the loop sends the erase command of the third page 21
  times.
\<close>

theorem page_loop_erase_attempts_counterexample:
  "sent (fst (page_loop ''network'' 5 image_one_page (sys_getsizeof image_one_page)
       (bin_end_of (sys_getsizeof image_one_page)) init_updater (replicate 30 nak_reply)
       bin_begin 0 0))
     = replicate 21 (firmware_command_packet ''erase'' 5 2 0x08009800) \<and>
   length (sent (fst (page_loop ''network'' 5 image_one_page (sys_getsizeof image_one_page)
       (bin_end_of (sys_getsizeof image_one_page)) init_updater (replicate 30 nak_reply)
       bin_begin 0 0))) \<noteq> 3"
proof -
  have o: "is_open init_updater" by (simp add: init_updater_def)
  obtain s' where r:
    "page_loop ''network'' 5 image_one_page (sys_getsizeof image_one_page)
       (bin_end_of (sys_getsizeof image_one_page)) init_updater (replicate 30 nak_reply)
       bin_begin 0 0 = (s', drop 21 (replicate 30 nak_reply), bin_begin + int 1 * page_size)"
    "sent s' = sent init_updater @ replicate 21 (firmware_command_packet ''erase'' 5
                  erase_page_num (page_addr_of (bin_begin + int 1 * page_size)))"
    using page_loop_nak_result[where label = "''network''" and module_id = 5
        and bin_size = "sys_getsizeof image_one_page" and evs = "replicate 30 nak_reply",
        OF o nak_script image_one_page_first_empty image_one_page_second_full
        image_one_page_bin_end]
    by blast
  have a: "page_addr_of (bin_begin + int 1 * page_size) = 0x08009800"
    by (simp add: page_addr_of_def bin_begin_def page_size_def flash_memory_addr_def
          page_offset_def)
  show ?thesis
    using r a by (simp add: init_updater_def erase_page_num_def)
qed

lemma end_flash_loop_nak:
  assumes "is_open s" "list_all erase_error_reply evs"
  shows "end_flash_loop s evs mid blk k
     = (False,
        s\<lparr>sent := sent s @ replicate 7 (firmware_command_packet ''erase'' mid erase_page_num
                 end_flash_addr),
          update_error := - 1, update_error_message := ''End erase error''\<rparr>,
        drop 7 evs)"
  by (subst end_flash_loop.simps)
     (simp add: set_firmware_command_nak[OF assms] max_retry_def eval_nat_numeral)

lemma end_flash_phase_nak:
  assumes "is_open s" "list_all erase_error_reply evs" "parse_version version_info = Inr version"
  shows "end_flash_phase version_info s evs mid
     = Inr (False,
            s\<lparr>progress := 100, progress_log := progress_log s @ [99, 100],
              sent := sent s @ replicate 7 (firmware_command_packet ''erase'' mid erase_page_num
                 end_flash_addr) @ [reboot_packet],
              update_error := - 1, update_error_message := ''version writing failed.'',
              has_update_error := True, is_open := False\<rparr>,
            drop 7 evs)"
proof -
  have o: "is_open (set_progress s 99)" using assms(1) by (simp add: set_progress_def)
  have e: "set_end_flash_data (set_progress s 99) evs mid blk
       = (False,
          (set_progress s 99)\<lparr>sent := sent (set_progress s 99) @ replicate 7
               (firmware_command_packet ''erase'' mid erase_page_num end_flash_addr),
            update_error := - 1, update_error_message := ''End erase error''\<rparr>,
          drop 7 evs)" for blk
    by (simp only: set_end_flash_data_def end_flash_loop_nak[OF o assms(2)])
  have "end_flash_phase version_info s evs mid
     = (let s2 = (set_progress s 99)\<lparr>sent := sent (set_progress s 99) @ replicate 7
               (firmware_command_packet ''erase'' mid erase_page_num end_flash_addr),
            update_error := - 1, update_error_message := ''End erase error''\<rparr> ;
            s3 = s2\<lparr>update_error_message := ''version writing failed.'',
                      has_update_error := True\<rparr> ;
            s4 = send_set_module_state s3 0xFFF REBOOT PNP_OFF ;
            s5 = set_progress s4 100 ;
            s6 = close s5
        in Inr (\<not> has_update_error s6, s6, drop 7 evs))"
    unfolding end_flash_phase_def Let_def assms(3) e by simp
  also have "\<dots> = Inr (False,
            s\<lparr>progress := 100, progress_log := progress_log s @ [99, 100],
              sent := sent s @ replicate 7 (firmware_command_packet ''erase'' mid erase_page_num
                 end_flash_addr) @ [reboot_packet],
              update_error := - 1, update_error_message := ''version writing failed.'',
              has_update_error := True, is_open := False\<rparr>,
            drop 7 evs)"
    using assms(1)
    by (simp add: Let_def send_set_module_state_def write_pkt_def set_progress_def close_def
          reboot_packet_def)
  finally show ?thesis .
qed

text \<open>
  C7 (as amended). When every attempt to erase the trailer page at \<open>0x0801F800\<close> fails,
  \<open>set_end_flash_data\<close> has sent the erase command and nothing else, more than once and
  no more than 7 times, and returns \<open>False\<close> with \<open>update_error = -1\<close> and the message
  \<open>End erase error\<close>;
  \<open>update_network_module\<close> then replaces the message by \<open>version writing failed.\<close> and
  sets \<open>has_update_error\<close>, and the run ends with \<open>update_error = -1\<close> and that message.
\<close>

theorem trailer_erase_failure_message:
  assumes "is_open s" and "list_all erase_error_reply evs"
      and "parse_version version_info = Inr version"
  shows "\<exists>n se s' sf.
           set_end_flash_data s evs module_id end_flash_data = (False, se, drop n evs)
         \<and> 1 < n \<and> n \<le> 7
         \<and> sent se = sent s @ replicate n
              (firmware_command_packet ''erase'' module_id erase_page_num end_flash_addr)
         \<and> update_error se = - 1 \<and> update_error_message se = ''End erase error''
         \<and> end_flash_phase version_info s evs module_id = Inr (False, s', drop n evs)
         \<and> update_error_message s' = ''version writing failed.'' \<and> has_update_error s'
         \<and> finish_run (end_flash_phase version_info s evs module_id) = Inr (sf, drop n evs)
         \<and> update_error sf = - 1 \<and> update_error_message sf = ''version writing failed.''"
proof -
  let ?pkt = "firmware_command_packet ''erase'' module_id erase_page_num end_flash_addr"
  let ?se = "s\<lparr>sent := sent s @ replicate 7 ?pkt,
          update_error := - 1, update_error_message := ''End erase error''\<rparr>"
  let ?s' = "s\<lparr>progress := 100, progress_log := progress_log s @ [99, 100],
              sent := sent s @ replicate 7 ?pkt @ [reboot_packet],
              update_error := - 1, update_error_message := ''version writing failed.'',
              has_update_error := True, is_open := False\<rparr>"
  let ?sf = "?s'\<lparr>is_open := False, update_error := - 1, update_in_progress := False\<rparr>"
  have a: "set_end_flash_data s evs module_id end_flash_data = (False, ?se, drop 7 evs)"
    by (simp add: set_end_flash_data_def end_flash_loop_nak[OF assms(1,2)])
  have b: "end_flash_phase version_info s evs module_id = Inr (False, ?s', drop 7 evs)"
    by (rule end_flash_phase_nak[OF assms])
  have c: "finish_run (end_flash_phase version_info s evs module_id) = Inr (?sf, drop 7 evs)"
    by (simp add: b finish_run_def close_def)
  have n: "(1::nat) < 7 \<and> (7::nat) \<le> 7" by simp
  have f1: "sent ?se = sent s @ replicate 7 ?pkt" by simp
  have f2: "update_error ?se = - 1" by simp
  have f3: "update_error_message ?se = ''End erase error''" by simp
  have f4: "update_error_message ?s' = ''version writing failed.''" by simp
  have f5: "has_update_error ?s'" by simp
  have f6: "update_error ?sf = - 1" by simp
  have f7: "update_error_message ?sf = ''version writing failed.''" by simp
  from a b c n f1 f2 f3 f4 f5 f6 f7 show ?thesis by blast
qed

theorem trailer_erase_failure_message_witness:
  "is_open init_updater \<and> list_all erase_error_reply (replicate 10 nak_reply) \<and>
   parse_version ''v1.2.3'' = Inr 0x2203 \<and>
   (\<exists>n sf. finish_run (end_flash_phase ''v1.2.3'' init_updater (replicate 10 nak_reply) 5)
             = Inr (sf, drop n (replicate 10 nak_reply))
          \<and> 1 < n \<and> n \<le> 7
          \<and> update_error sf = - 1 \<and> update_error_message sf = ''version writing failed.'')"
proof -
  have o: "is_open init_updater" by (simp add: init_updater_def)
  have v: "parse_version ''v1.2.3'' = Inr 0x2203" by code_simp
  show ?thesis
    using trailer_erase_failure_message[OF o nak_script v, where module_id = 5 and n1 = 10]
      o nak_script[of 10] v
    by blast
qed


lemma page_loop_done:
  "\<not> p < be \<Longrightarrow> page_loop l m buf bs be s evs p e c = (s, evs, p)"
  by (subst page_loop.simps) simp

lemma parse_v123: "parse_version ''v1.2.3'' = Inr 0x2203"
  by code_simp

lemma network_564_message:
  "erase_failed_message ''network'' 564 = ''network (564) erase flash failed.''"
  by code_simp

lemma parse_version_strip: "parse_version ''1.2.3'' = Inr 0x2203"
  by code_simp

lemma all_nak_network_run:
  "update_module_firmware sim_module_type demo_firmware init_updater
     ([identify_silence, network_ready] @ replicate 40 nak_reply)
   = Inr (\<lparr>is_open = False, is_network = Some True, network_version = None,
           network_uuid = Some 0x1234, network_id = Some 0x234,
           update_in_progress = False, progress = 100, update_error = - 1,
           update_error_message = ''version writing failed.'', has_update_error = True,
           sent = \<lparr>cmd = 0x28, sid = 0xFFF, did = 0xFFF, payload = Pair 0xFF 0xFF\<rparr>
                  # \<lparr>cmd = 0xA4, sid = 0, did = 0xFFF, payload = State UPDATE_FIRMWARE PNP_OFF\<rparr>
                  # replicate 21 (firmware_command_packet ''erase'' 0x234 2 0x08009800)
                  @ replicate 7 (firmware_command_packet ''erase'' 0x234 2 0x0801F800)
                  @ [reboot_packet],
           progress_log = [0, 33, 66, 66, 66, 99, 100]\<rparr>,
          replicate 12 nak_reply)"
proof -
  have pre: "update_module_firmware sim_module_type demo_firmware init_updater
     ([identify_silence, network_ready] @ replicate 40 nak_reply)
   = finish_run (update_module ''network'' ''v1.2.3'' image_one_page
       \<lparr>is_open = True, is_network = Some True, network_version = None,
           network_uuid = Some 0x1234, network_id = Some 0x234,
           update_in_progress = True, progress = 0, update_error = 0,
           update_error_message = [], has_update_error = False,
           sent = [\<lparr>cmd = 0x28, sid = 0xFFF, did = 0xFFF, payload = Pair 0xFF 0xFF\<rparr>,
                   \<lparr>cmd = 0xA4, sid = 0, did = 0xFFF, payload = State UPDATE_FIRMWARE PNP_OFF\<rparr>],
           progress_log = [0]\<rparr>
       (replicate 40 nak_reply) 0x234)"
    by (simp add: update_module_firmware_def identify_silence_def network_ready_def
          sim_module_type_def is_updatable_def enter_bootloader_def init_updater_def
          set_progress_def send_request_network_uuid_def write_pkt_def
          send_set_network_module_state_def close_def reopen_def truthy_int_def
          truthy_bool_def run_module_update_def update_network_module_def demo_firmware_def
          Let_def)
  have pl: "page_loop ''network'' 0x234 image_one_page (sys_getsizeof image_one_page)
              (bin_end_of (sys_getsizeof image_one_page))
       \<lparr>is_open = True, is_network = Some True, network_version = None,
           network_uuid = Some 0x1234, network_id = Some 0x234,
           update_in_progress = True, progress = 0, update_error = 0,
           update_error_message = [], has_update_error = False,
           sent = [\<lparr>cmd = 0x28, sid = 0xFFF, did = 0xFFF, payload = Pair 0xFF 0xFF\<rparr>,
                   \<lparr>cmd = 0xA4, sid = 0, did = 0xFFF, payload = State UPDATE_FIRMWARE PNP_OFF\<rparr>],
           progress_log = [0]\<rparr>
       (replicate 40 nak_reply) bin_begin 0 0
     = (\<lparr>is_open = True, is_network = Some True, network_version = None,
           network_uuid = Some 0x1234, network_id = Some 0x234,
           update_in_progress = True, progress = 66, update_error = 0,
           update_error_message = ''network (564) erase flash failed.'',
           has_update_error = True,
           sent = \<lparr>cmd = 0x28, sid = 0xFFF, did = 0xFFF, payload = Pair 0xFF 0xFF\<rparr>
                  # \<lparr>cmd = 0xA4, sid = 0, did = 0xFFF, payload = State UPDATE_FIRMWARE PNP_OFF\<rparr>
                  # replicate 21 (firmware_command_packet ''erase'' 0x234 2 0x08009800),
           progress_log = [0, 33, 66, 66, 66]\<rparr>,
        replicate 19 nak_reply, 0x1000)"
    by (simp add: page_loop_skip page_loop_erase_fail page_loop_done empty_page_def page_at_def
          image_one_page_def slice_def bin_begin_def page_size_def bin_end_of_def
          sys_getsizeof_def nak_script set_progress_def max_retry_def erase_error_limit_def
          page_addr_of_def flash_memory_addr_def page_offset_def erase_page_num_def
          network_564_message replicate_add[symmetric] del: replicate_Suc)
  have ef: "end_flash_phase ''v1.2.3''
       \<lparr>is_open = True, is_network = Some True, network_version = None,
           network_uuid = Some 0x1234, network_id = Some 0x234,
           update_in_progress = True, progress = 66, update_error = 0,
           update_error_message = ''network (564) erase flash failed.'',
           has_update_error = True,
           sent = \<lparr>cmd = 0x28, sid = 0xFFF, did = 0xFFF, payload = Pair 0xFF 0xFF\<rparr>
                  # \<lparr>cmd = 0xA4, sid = 0, did = 0xFFF, payload = State UPDATE_FIRMWARE PNP_OFF\<rparr>
                  # replicate 21 (firmware_command_packet ''erase'' 0x234 2 0x08009800),
           progress_log = [0, 33, 66, 66, 66]\<rparr>
       (replicate 19 nak_reply) 0x234
     = Inr (False,
        \<lparr>is_open = False, is_network = Some True, network_version = None,
           network_uuid = Some 0x1234, network_id = Some 0x234,
           update_in_progress = True, progress = 100, update_error = - 1,
           update_error_message = ''version writing failed.'', has_update_error = True,
           sent = \<lparr>cmd = 0x28, sid = 0xFFF, did = 0xFFF, payload = Pair 0xFF 0xFF\<rparr>
                  # \<lparr>cmd = 0xA4, sid = 0, did = 0xFFF, payload = State UPDATE_FIRMWARE PNP_OFF\<rparr>
                  # replicate 21 (firmware_command_packet ''erase'' 0x234 2 0x08009800)
                  @ replicate 7 (firmware_command_packet ''erase'' 0x234 2 0x0801F800)
                  @ [reboot_packet],
           progress_log = [0, 33, 66, 66, 66, 99, 100]\<rparr>,
        replicate 12 nak_reply)"
    by (subst end_flash_phase_nak[where version = "0x2203"])
       (simp_all add: nak_script parse_v123 erase_page_num_def end_flash_addr_def)
  show ?thesis
    unfolding pre
    by (simp add: update_module_def Let_def pl ef finish_run_def close_def)
qed

lemma page_erase_neq_trailer_erase:
  "firmware_command_packet ''erase'' 0x234 2 0x08009800
     \<noteq> firmware_command_packet ''erase'' 0x234 2 0x0801F800"
  by code_simp

lemma count_list_replicate_same: "count_list (replicate n x) x = n"
  by (induction n) auto

lemma count_list_replicate_other: "x \<noteq> y \<Longrightarrow> count_list (replicate n x) y = 0"
  by (induction n) auto

text \<open>
  The claim as it stands bounds the trailer erase by 6 attempts and surfaces
  \<open>End erase error\<close>. In a run against a device that fails every erase, the erase command
  of the trailer page is sent 7 times and the run ends with the message
  \<open>version writing failed.\<close>.
\<close>

theorem trailer_erase_counterexample:
  "map_option (count_sent (firmware_command_packet ''erase'' 0x234 2 0x0801F800))
     (final_state (update_module_firmware sim_module_type demo_firmware init_updater
        ([identify_silence, network_ready] @ replicate 40 nak_reply))) = Some 7 \<and>
   map_option update_error
     (final_state (update_module_firmware sim_module_type demo_firmware init_updater
        ([identify_silence, network_ready] @ replicate 40 nak_reply))) = Some (- 1) \<and>
   map_option update_error_message
     (final_state (update_module_firmware sim_module_type demo_firmware init_updater
        ([identify_silence, network_ready] @ replicate 40 nak_reply)))
     = Some ''version writing failed.'' \<and>
   map_option update_error_message
     (final_state (update_module_firmware sim_module_type demo_firmware init_updater
        ([identify_silence, network_ready] @ replicate 40 nak_reply)))
     \<noteq> Some ''End erase error''"
proof -
  have r: "reboot_packet \<noteq> firmware_command_packet ''erase'' 0x234 2 0x0801F800"
    by (simp add: reboot_packet_def firmware_command_packet_def)
  show ?thesis
    unfolding all_nak_network_run
    using page_erase_neq_trailer_erase r
    by (simp add: final_state_def count_sent_def count_list_replicate_same
          count_list_replicate_other firmware_command_packet_def)
qed












lemma appends_sent_refl: "appends_sent s s"
  unfolding appends_sent_def by (rule exI[of _ "[]"]) simp

lemma appends_sent_trans: "appends_sent a b \<Longrightarrow> appends_sent b c \<Longrightarrow> appends_sent a c"
  unfolding appends_sent_def
proof -
  assume "\<exists>tr. b = a\<lparr>sent := sent a @ tr\<rparr>" "\<exists>tr. c = b\<lparr>sent := sent b @ tr\<rparr>"
  then obtain t1 t2 where "b = a\<lparr>sent := sent a @ t1\<rparr>" "c = b\<lparr>sent := sent b @ t2\<rparr>" by blast
  then have "c = a\<lparr>sent := sent a @ (t1 @ t2)\<rparr>" by simp
  then show "\<exists>tr. c = a\<lparr>sent := sent a @ tr\<rparr>" by blast
qed

lemma appends_sent_write_pkt: "appends_sent s (write_pkt s p)"
  unfolding appends_sent_def write_pkt_def
  by (cases "is_open s") (auto intro: exI[of _ "[p]"] exI[of _ "[]"])

lemma appends_sent_send_firmware_command:
  "appends_sent s (send_firmware_command s op mid c a)"
  by (simp add: send_firmware_command_def appends_sent_write_pkt)

lemma appends_sent_erase_retry:
  "appends_sent s (fst (snd (erase_retry s evs op mid c a k)))"
proof (induction s evs op mid c a k rule: erase_retry.induct)
  case (1 s evs op mid c a k)
  let ?s1 = "send_firmware_command s op mid c a"
  let ?r = "receive_firmware_command_response evs"
  have a1: "appends_sent s ?s1" by (rule appends_sent_send_firmware_command)
  show ?case
  proof (cases "k + 1 > max_retry \<or> fst ?r")
    case True
    then show ?thesis using a1 by (subst erase_retry.simps) (auto simp: Let_def)
  next
    case False
    then have "appends_sent ?s1 (fst (snd (erase_retry ?s1 (snd ?r) op mid c a (k + 1))))"
      using "1.IH"[OF refl refl refl] by simp
    with a1 False show ?thesis
      by (subst erase_retry.simps) (auto simp: Let_def intro: appends_sent_trans)
  qed
qed

lemma appends_sent_set_firmware_command:
  "appends_sent s (fst (snd (set_firmware_command s evs op mid c a)))"
  using appends_sent_send_firmware_command[of s op mid c a]
    appends_sent_erase_retry[of "send_firmware_command s op mid c a"]
  by (auto simp: set_firmware_command_def Let_def intro: appends_sent_trans)

lemma appends_sent_set_firmware_data:
  "appends_sent s (snd (set_firmware_data s mid seq d c))"
  by (simp add: set_firmware_data_def send_firmware_data_def appends_sent_write_pkt)

lemma appends_sent_end_flash_chunks:
  "appends_sent s (snd (send_end_flash_chunks s mid blk c ptrs))"
proof (induction ptrs arbitrary: s c)
  case Nil
  then show ?case by (simp add: appends_sent_refl)
next
  case (Cons p ptrs)
  show ?case
    by (simp add: Let_def) (rule appends_sent_trans[OF appends_sent_set_firmware_data Cons.IH])
qed

lemma appends_sent_write_page:
  "appends_sent s (snd (write_page s mid pg pb bs c ptrs))"
proof (induction ptrs arbitrary: s c)
  case Nil
  then show ?case by (simp add: appends_sent_refl)
next
  case (Cons p ptrs)
  show ?case
    by (auto simp: Let_def appends_sent_refl
          intro: appends_sent_trans[OF appends_sent_set_firmware_data Cons.IH])
qed

lemma receive_complete:
  "complete_reply e \<Longrightarrow> receive_firmware_command_response (e # evs) = (True, evs)"
proof -
  assume c: "complete_reply e"
  then obtain c0 b where j: "recved e = Json c0 b"
    by (cases "recved e") (auto simp: complete_reply_def)
  with c show ?thesis
    by (auto simp: complete_reply_def CRC_ERROR_def ERASE_ERROR_def CRC_COMPLETE_def
          ERASE_COMPLETE_def Let_def)
qed

lemma set_firmware_command_complete:
  "complete_reply e \<Longrightarrow>
   set_firmware_command s (e # evs) op mid c a = (True, send_firmware_command s op mid c a, evs)"
  by (simp add: set_firmware_command_def receive_complete Let_def
        del: receive_firmware_command_response.simps)

lemma end_flash_loop_complete:
  assumes "complete_reply e1" "complete_reply e2"
  shows "\<exists>s'. end_flash_loop s (e1 # e2 # evs) mid blk k = (True, s', evs) \<and> appends_sent s s'"
proof -
  let ?s1 = "send_firmware_command s ''erase'' mid erase_page_num end_flash_addr"
  let ?r = "send_end_flash_chunks ?s1 mid blk 0 (range_step8 (int (length blk)))"
  let ?s3 = "send_firmware_command (snd ?r) ''crc'' mid (fst ?r) end_flash_addr"
  have "end_flash_loop s (e1 # e2 # evs) mid blk k = (True, ?s3, evs)"
    by (subst end_flash_loop.simps)
       (simp add: set_firmware_command_complete[OF assms(1)]
          set_firmware_command_complete[OF assms(2)] split: prod.splits)
  moreover have "appends_sent s ?s3"
    using appends_sent_send_firmware_command[of s] appends_sent_end_flash_chunks[of ?s1]
      appends_sent_send_firmware_command[of "snd ?r"]
    by (blast intro: appends_sent_trans)
  ultimately show ?thesis by blast
qed

lemma end_flash_phase_complete:
  assumes "complete_reply e1" "complete_reply e2" "parse_version version_info = Inr version"
  shows "\<exists>tr. end_flash_phase version_info s (e1 # e2 # evs) mid
     = Inr (\<not> has_update_error s,
            s\<lparr>progress := 100, progress_log := progress_log s @ [99, 100],
              sent := sent s @ tr, is_open := False\<rparr>,
            evs)"
proof -
  obtain s2 where s2: "end_flash_loop (set_progress s 99) (e1 # e2 # evs) mid
        (end_flash_block (has_update_error (set_progress s 99)) version) 0 = (True, s2, evs)"
      "appends_sent (set_progress s 99) s2"
    using end_flash_loop_complete[OF assms(1,2)] by blast
  then obtain t1 where t1: "s2 = (set_progress s 99)\<lparr>sent := sent (set_progress s 99) @ t1\<rparr>"
    unfolding appends_sent_def by blast
  obtain t2 where t2: "send_set_module_state s2 0xFFF REBOOT PNP_OFF = s2\<lparr>sent := sent s2 @ t2\<rparr>"
    using appends_sent_write_pkt[of s2] unfolding appends_sent_def send_set_module_state_def
    by blast
  have "end_flash_phase version_info s (e1 # e2 # evs) mid
     = Inr (\<not> has_update_error s,
            s\<lparr>progress := 100, progress_log := progress_log s @ [99, 100],
              sent := sent s @ (t1 @ t2), is_open := False\<rparr>,
            evs)"
    unfolding end_flash_phase_def Let_def assms(3) set_end_flash_data_def
    by (simp add: s2(1) t2) (simp add: t1 set_progress_def close_def)
  then show ?thesis by blast
qed

lemma receive_nak_prefix:
  "list_all erase_error_reply (take 1 evs) \<Longrightarrow>
   receive_firmware_command_response evs = (False, drop 1 evs)"
  by (cases evs) (auto simp: erase_error_reply_def split: rx.splits)

lemma erase_retry_nak_prefix:
  "k + n = Suc max_retry \<Longrightarrow> 0 < n \<Longrightarrow> is_open s \<Longrightarrow>
   list_all erase_error_reply (take n evs) \<Longrightarrow>
   erase_retry s evs op mid c a k
     = (False, s\<lparr>sent := sent s @ replicate n (firmware_command_packet op mid c a)\<rparr>, drop n evs)"
proof (induction n arbitrary: k s evs)
  case 0
  then show ?case by simp
next
  case (Suc n)
  let ?s1 = "s\<lparr>sent := sent s @ [firmware_command_packet op mid c a]\<rparr>"
  have "take 1 evs = take 1 (take (Suc n) evs)" by simp
  then have h1: "list_all erase_error_reply (take 1 evs)"
    using Suc.prems(4) list_all_iff in_set_takeD by (metis)
  have "take n (drop 1 evs) = drop 1 (take (Suc n) evs)" by (simp add: drop_take)
  then have hn: "list_all erase_error_reply (take n (drop 1 evs))"
    using Suc.prems(4) by (simp add: list_all_drop)
  show ?case
  proof (cases "n = 0")
    case True
    with Suc.prems show ?thesis
      by (subst erase_retry.simps)
         (simp add: receive_nak_prefix[OF h1] send_firmware_command_def write_pkt_open Let_def)
  next
    case False
    have ih: "erase_retry ?s1 (drop 1 evs) op mid c a (Suc k)
       = (False, ?s1\<lparr>sent := sent ?s1 @ replicate n (firmware_command_packet op mid c a)\<rparr>,
          drop n (drop 1 evs))"
      using Suc.prems False hn by (intro Suc.IH) auto
    from Suc.prems False have "\<not> Suc k > max_retry" by simp
    then show ?thesis using Suc.prems ih
      by (subst erase_retry.simps)
         (simp add: receive_nak_prefix[OF h1] send_firmware_command_def write_pkt_open Let_def
            replicate_app_Cons_same)
  qed
qed

lemma set_firmware_command_nak_prefix:
  assumes "is_open s" "list_all erase_error_reply (take (Suc (Suc max_retry)) evs)"
  shows "set_firmware_command s evs ''erase'' mid c a
     = (False, s\<lparr>sent := sent s @ replicate (Suc (Suc max_retry)) (firmware_command_packet ''erase'' mid c a)\<rparr>,
        drop (Suc (Suc max_retry)) evs)"
proof -
  let ?s1 = "s\<lparr>sent := sent s @ [firmware_command_packet ''erase'' mid c a]\<rparr>"
  have "take 1 evs = take 1 (take (Suc (Suc max_retry)) evs)" by simp
  then have h1: "list_all erase_error_reply (take 1 evs)"
    using assms(2) list_all_iff in_set_takeD by (metis)
  have "take (Suc max_retry) (drop 1 evs) = drop 1 (take (Suc (Suc max_retry)) evs)"
    by (simp add: drop_take)
  then have hn: "list_all erase_error_reply (take (Suc max_retry) (drop 1 evs))"
    using assms(2) by (simp add: list_all_drop)
  have "erase_retry ?s1 (drop 1 evs) ''erase'' mid c a 0
     = (False, ?s1\<lparr>sent := sent ?s1 @ replicate (Suc max_retry) (firmware_command_packet ''erase'' mid c a)\<rparr>,
        drop (Suc max_retry) (drop 1 evs))"
    using assms(1) hn by (intro erase_retry_nak_prefix) auto
  then show ?thesis using assms(1)
    by (simp add: set_firmware_command_def receive_nak_prefix[OF h1] send_firmware_command_def
          write_pkt_open Let_def replicate_app_Cons_same)
qed

lemma page_loop_erase_fail_prefix:
  assumes "p < be" "\<not> empty_page (page_at buf p)" "is_open s"
      and "list_all erase_error_reply (take (Suc (Suc max_retry)) evs)"
  shows "page_loop l m buf bs be s evs p e c
       = (if e + 1 > erase_error_limit
          then ((set_progress s (100 * p div be))
                     \<lparr>sent := sent s @ replicate (Suc (Suc max_retry))
                        (firmware_command_packet ''erase'' m erase_page_num (page_addr_of p)),
                      has_update_error := True,
                      update_error_message := erase_failed_message l m\<rparr>,
                   drop (Suc (Suc max_retry)) evs, p)
          else page_loop l m buf bs be
                 ((set_progress s (100 * p div be))
                     \<lparr>sent := sent s @ replicate (Suc (Suc max_retry))
                        (firmware_command_packet ''erase'' m erase_page_num (page_addr_of p))\<rparr>)
                 (drop (Suc (Suc max_retry)) evs) p (e + 1) c)"
proof -
  have o: "is_open (set_progress s (100 * p div be))" using assms(3) by (simp add: set_progress_def)
  have sn: "sent (set_progress s (100 * p div be)) = sent s" by (simp add: set_progress_def)
  show ?thesis
    using assms(1,2)
    by (subst page_loop.simps)
       (simp add: Let_def empty_page_def page_at_def
          set_firmware_command_nak_prefix[OF o assms(4)] page_addr_of_def sn)
qed

lemma page_loop_erase_fail_7:
  assumes "p < be" "\<not> empty_page (page_at buf p)" "is_open s"
      and "list_all erase_error_reply (take 7 evs)"
  shows "page_loop l m buf bs be s evs p e c
       = (if e + 1 > erase_error_limit
          then ((set_progress s (100 * p div be))
                     \<lparr>sent := sent s @ replicate 7
                        (firmware_command_packet ''erase'' m erase_page_num (page_addr_of p)),
                      has_update_error := True,
                      update_error_message := erase_failed_message l m\<rparr>,
                   drop 7 evs, p)
          else page_loop l m buf bs be
                 ((set_progress s (100 * p div be))
                     \<lparr>sent := sent s @ replicate 7
                        (firmware_command_packet ''erase'' m erase_page_num (page_addr_of p))\<rparr>)
                 (drop 7 evs) p (e + 1) c)"
proof -
  have n: "Suc (Suc max_retry) = 7" by (simp add: max_retry_def)
  show ?thesis
    using page_loop_erase_fail_prefix[OF assms(1,2,3), of evs l m bs e c] assms(4)
    unfolding n by simp
qed

lemma camera_564_message:
  "erase_failed_message ''camera'' 564 = ''camera (564) erase flash failed.''"
  by code_simp

lemma parse_v107: "parse_version ''v1.0.7'' = Inr 0x2007"
  by code_simp

lemma ack_complete: "complete_reply ack_reply"
  by (simp add: complete_reply_def ack_reply_def ERASE_COMPLETE_def)

lemma nak_erase_error: "erase_error_reply nak_reply"
  by (simp add: erase_error_reply_def nak_reply_def ERASE_ERROR_def)

lemma camera_page_erase_fails_run:
  "\<exists>tr. update_module_firmware sim_module_type demo_firmware init_updater
     ([identify_silence, camera_ready] @ replicate 21 nak_reply @ [ack_reply, ack_reply])
   = Inr (\<lparr>is_open = False, is_network = Some False, network_version = None,
           network_uuid = Some 0x100001234, network_id = Some 0x234,
           update_in_progress = False, progress = 100, update_error = - 1,
           update_error_message = ''camera (564) erase flash failed.'',
           has_update_error = True,
           sent = tr, progress_log = [0, 33, 66, 66, 66, 99, 100]\<rparr>, [])"
proof -
  let ?S2 = "\<lparr>is_open = True, is_network = Some False, network_version = None,
           network_uuid = Some 0x100001234, network_id = Some 0x234,
           update_in_progress = True, progress = 0, update_error = 0,
           update_error_message = [], has_update_error = False,
           sent = [\<lparr>cmd = 0x28, sid = 0xFFF, did = 0xFFF, payload = Pair 0xFF 0xFF\<rparr>,
                   \<lparr>cmd = 0xA4, sid = 0, did = 0xFFF, payload = State UPDATE_FIRMWARE PNP_OFF\<rparr>],
           progress_log = [0]\<rparr>"
  let ?S3 = "\<lparr>is_open = True, is_network = Some False, network_version = None,
           network_uuid = Some 0x100001234, network_id = Some 0x234,
           update_in_progress = True, progress = 66, update_error = 0,
           update_error_message = ''camera (564) erase flash failed.'',
           has_update_error = True,
           sent = \<lparr>cmd = 0x28, sid = 0xFFF, did = 0xFFF, payload = Pair 0xFF 0xFF\<rparr>
                  # \<lparr>cmd = 0xA4, sid = 0, did = 0xFFF, payload = State UPDATE_FIRMWARE PNP_OFF\<rparr>
                  # replicate 21 (firmware_command_packet ''erase'' 0x234 2 0x08009800),
           progress_log = [0, 33, 66, 66, 66]\<rparr>"
  have pre: "update_module_firmware sim_module_type demo_firmware init_updater
     ([identify_silence, camera_ready] @ replicate 21 nak_reply @ [ack_reply, ack_reply])
   = finish_run (update_module ''camera'' ''v1.0.7'' image_one_page ?S2
       (replicate 21 nak_reply @ [ack_reply, ack_reply]) 0x234)"
    by (simp add: update_module_firmware_def identify_silence_def camera_ready_def
          sim_module_type_def is_updatable_def enter_bootloader_def init_updater_def
          set_progress_def send_request_network_uuid_def write_pkt_def
          send_set_network_module_state_def close_def reopen_def truthy_int_def
          truthy_bool_def run_module_update_def update_camera_module_def demo_firmware_def
          Let_def)
  have pl: "page_loop ''camera'' 0x234 image_one_page (sys_getsizeof image_one_page)
              (bin_end_of (sys_getsizeof image_one_page)) ?S2
              (replicate 21 nak_reply @ [ack_reply, ack_reply]) bin_begin 0 0
     = (?S3, [ack_reply, ack_reply], 0x1000)"
    by (simp add: page_loop_skip page_loop_erase_fail_7 page_loop_done empty_page_def
          page_at_def image_one_page_def slice_def bin_begin_def page_size_def bin_end_of_def
          sys_getsizeof_def nak_erase_error list_all_iff set_progress_def
          erase_error_limit_def page_addr_of_def flash_memory_addr_def page_offset_def
          erase_page_num_def camera_564_message replicate_add[symmetric] del: replicate_Suc)
  obtain tr where ef: "end_flash_phase ''v1.0.7'' ?S3 [ack_reply, ack_reply] 0x234
     = Inr (\<not> has_update_error ?S3,
            ?S3\<lparr>progress := 100, progress_log := progress_log ?S3 @ [99, 100],
              sent := sent ?S3 @ tr, is_open := False\<rparr>, [])"
    using end_flash_phase_complete[OF ack_complete ack_complete parse_v107] by blast
  have "update_module_firmware sim_module_type demo_firmware init_updater
     ([identify_silence, camera_ready] @ replicate 21 nak_reply @ [ack_reply, ack_reply])
   = Inr (\<lparr>is_open = False, is_network = Some False, network_version = None,
           network_uuid = Some 0x100001234, network_id = Some 0x234,
           update_in_progress = False, progress = 100, update_error = - 1,
           update_error_message = ''camera (564) erase flash failed.'',
           has_update_error = True,
           sent = sent ?S3 @ tr, progress_log = [0, 33, 66, 66, 66, 99, 100]\<rparr>, [])"
    unfolding pre
    by (simp add: update_module_def Let_def pl ef finish_run_def close_def)
  then show ?thesis by blast
qed


lemma appends_sent_fields:
  "appends_sent s s' \<Longrightarrow>
   progress_log s' = progress_log s \<and> progress s' = progress s \<and> is_open s' = is_open s \<and>
   has_update_error s' = has_update_error s \<and> update_error s' = update_error s \<and>
   update_error_message s' = update_error_message s \<and> network_id s' = network_id s \<and>
   (\<exists>tr. sent s' = sent s @ tr)"
  unfolding appends_sent_def by auto

lemma set_firmware_command_fields:
  "set_firmware_command s evs op mid c a = (ok, s', evs') \<Longrightarrow>
   progress_log s' = progress_log s \<and> progress s' = progress s \<and> is_open s' = is_open s \<and>
   has_update_error s' = has_update_error s \<and> update_error s' = update_error s \<and>
   update_error_message s' = update_error_message s \<and> network_id s' = network_id s \<and>
   (\<exists>tr. sent s' = sent s @ tr)"
  using appends_sent_fields[OF appends_sent_set_firmware_command[of s evs op mid c a]] by simp

lemma write_page_fields:
  "write_page s mid pg pb bs c ptrs = (cs, s') \<Longrightarrow>
   progress_log s' = progress_log s \<and> progress s' = progress s \<and> is_open s' = is_open s \<and>
   has_update_error s' = has_update_error s \<and> update_error s' = update_error s \<and>
   update_error_message s' = update_error_message s \<and> network_id s' = network_id s \<and>
   (\<exists>tr. sent s' = sent s @ tr)"
  using appends_sent_fields[OF appends_sent_write_page[of s mid pg pb bs c ptrs]] by simp

lemma progress_below_100:
  assumes "0 \<le> pb" "pb < be"
  shows "100 * pb div be \<le> (99::int)"
proof -
  have b: "0 < be" using assms by simp
  have "100 * pb = be * (100 * pb div be) + 100 * pb mod be" by simp
  moreover have "0 \<le> 100 * pb mod be" using b by simp
  ultimately have "be * (100 * pb div be) \<le> 100 * pb" by linarith
  also have "\<dots> < be * 100" using assms by simp
  finally have "100 * pb div be < 100" using b by (simp only: mult_less_cancel_left_pos)
  then show ?thesis by simp
qed

lemma progress_mono:
  assumes "0 \<le> pb" "pb < be" "pb \<le> pb'"
  shows "100 * pb div be \<le> 100 * pb' div (be::int)"
  using assms by (intro zdiv_mono1) auto

lemma erase_failed_message_nonempty: "erase_failed_message l m \<noteq> []"
  by (simp add: erase_failed_message_def)

lemma page_loop_invariant:
  fixes I I' :: "updater \<Rightarrow> int \<Rightarrow> bool"
  assumes "I s pb"
      and enter: "\<And>s pb. I s pb \<Longrightarrow> pb < be \<Longrightarrow> I' (set_progress s (100 * pb div be)) pb"
      and sends: "\<And>s s' pb. I' s pb \<Longrightarrow> appends_sent s s' \<Longrightarrow> I' s' pb"
      and nxt: "\<And>s pb. I' s pb \<Longrightarrow> I s (pb + page_size)"
      and again: "\<And>s pb. I' s pb \<Longrightarrow> I s pb"
  shows "\<exists>s' evs' pb'. page_loop l m buf bs be s evs pb e c = (s', evs', pb') \<and>
           ((\<not> pb' < be \<and> I s' pb') \<or>
            (pb' < be \<and> (\<exists>s'' msg. I' s'' pb' \<and> msg \<noteq> [] \<and>
               s' = s''\<lparr>has_update_error := True, update_error_message := msg\<rparr>)))"
  using assms(1) enter
proof (induction l m buf bs be s evs pb e c rule: page_loop.induct)
  case (1 label module_id bin_buffer bin_size bin_end s evs page_begin eec cec)
  note enter' = "1.prems"(2)
  show ?case
  proof (cases "page_begin < bin_end")
    case False
    then show ?thesis using "1.prems"(1) by (subst page_loop.simps) simp
  next
    case True
    define s0 where "s0 = set_progress s (100 * page_begin div bin_end)"
    define curr_page where "curr_page = slice bin_buffer page_begin (page_begin + page_size)"
    have i0: "I' s0 page_begin" unfolding s0_def by (rule enter'[OF "1.prems"(1) True])
    show ?thesis
    proof (cases "curr_page = replicate (length curr_page) 0")
      case empty: True
      have "I s0 (page_begin + page_size)" by (rule nxt[OF i0])
      from "1.IH"(1)[OF True s0_def refl curr_page_def empty this enter']
      show ?thesis
        using True empty by (subst page_loop.simps) (simp add: Let_def s0_def curr_page_def)
    next
      case nonempty: False
      obtain ok1 s1 evs1 where e1: "set_firmware_command s0 evs ''erase'' module_id erase_page_num
          (flash_memory_addr + page_begin + page_offset) = (ok1, s1, evs1)"
        by (metis prod_cases3)
      have a1: "appends_sent s0 s1"
        using appends_sent_set_firmware_command[of s0 evs "''erase''" module_id erase_page_num
            "flash_memory_addr + page_begin + page_offset"] e1 by simp
      have i1: "I' s1 page_begin" by (rule sends[OF i0 a1])
      show ?thesis
      proof (cases ok1)
        case False
        show ?thesis
        proof (cases "erase_error_limit < eec + 1")
          case abort: True
          have "page_loop label module_id bin_buffer bin_size bin_end s evs page_begin eec cec
              = (s1\<lparr>has_update_error := True,
                    update_error_message := erase_failed_message label module_id\<rparr>,
                 evs1, page_begin)"
            using True nonempty False abort e1
            by (subst page_loop.simps) (simp add: Let_def s0_def curr_page_def)
          with True i1 erase_failed_message_nonempty show ?thesis by blast
        next
          case retry: False
          have "I s1 page_begin" by (rule again[OF i1])
          from "1.IH"(2)[OF True s0_def refl curr_page_def nonempty e1[symmetric] refl False retry this enter']
          show ?thesis
            using True nonempty False retry e1
            by (subst page_loop.simps) (simp add: Let_def s0_def curr_page_def)
        qed
      next
        case erased: True
        obtain checksum s2 where w: "write_page s1 module_id curr_page page_begin bin_size 0
            (range_step8 page_size) = (checksum, s2)"
          by (metis surj_pair)
        have a2: "appends_sent s1 s2"
          using appends_sent_write_page[of s1 module_id curr_page page_begin bin_size 0
              "range_step8 page_size"] w by simp
        obtain ok3 s3 evs3 where e3: "set_firmware_command s2 evs1 ''crc'' module_id checksum
            (flash_memory_addr + page_begin + page_offset) = (ok3, s3, evs3)"
          by (metis prod_cases3)
        have a3: "appends_sent s2 s3"
          using appends_sent_set_firmware_command[of s2 evs1 "''crc''" module_id checksum
              "flash_memory_addr + page_begin + page_offset"] e3 by simp
        have i3: "I' s3 page_begin" by (rule sends[OF sends[OF i1 a2] a3])
        have ne: "\<not> \<not> ok1" using erased by simp
        show ?thesis
        proof (cases ok3)
          case True
          have "I s3 (page_begin + page_size)" by (rule nxt[OF i3])
          from "1.IH"(3)[OF \<open>page_begin < bin_end\<close> s0_def refl curr_page_def nonempty
              e1[symmetric] refl ne w[symmetric] e3[symmetric] refl True this enter']
          show ?thesis
            using \<open>page_begin < bin_end\<close> nonempty erased True e1 w e3
            by (subst page_loop.simps) (simp add: Let_def s0_def curr_page_def)
        next
          case crcfail: False
          show ?thesis
          proof (cases "crc_error_limit < cec + 1")
            case abort: True
            have "page_loop label module_id bin_buffer bin_size bin_end s evs page_begin eec cec
              = (s3\<lparr>has_update_error := True, update_error_message := ''Check crc failed.''\<rparr>,
                 evs3, page_begin)"
              using \<open>page_begin < bin_end\<close> nonempty erased crcfail abort e1 w e3
              by (subst page_loop.simps) (simp add: Let_def s0_def curr_page_def)
            moreover have "''Check crc failed.'' \<noteq> []" by simp
            ultimately show ?thesis using \<open>page_begin < bin_end\<close> i3 by blast
          next
            case retry: False
            have "I s3 page_begin" by (rule again[OF i3])
            from "1.IH"(4)[OF \<open>page_begin < bin_end\<close> s0_def refl curr_page_def nonempty
                e1[symmetric] refl ne w[symmetric] e3[symmetric] refl crcfail retry this enter']
            show ?thesis
              using \<open>page_begin < bin_end\<close> nonempty erased crcfail retry e1 w e3
              by (subst page_loop.simps) (simp add: Let_def s0_def curr_page_def)
          qed
        qed
      qed
    qed
  qed
qed

lemma sends_only_refl: "sends_only R s s"
  unfolding sends_only_def by (rule exI[of _ "[]"]) simp

lemma sends_only_trans: "sends_only R a b \<Longrightarrow> sends_only R b c \<Longrightarrow> sends_only R a c"
proof -
  assume "sends_only R a b" "sends_only R b c"
  then obtain t1 t2 where t: "b = a\<lparr>sent := sent a @ t1\<rparr>" "list_all R t1"
      "c = b\<lparr>sent := sent b @ t2\<rparr>" "list_all R t2"
    unfolding sends_only_def by blast
  then have "c = a\<lparr>sent := sent a @ (t1 @ t2)\<rparr>" "list_all R (t1 @ t2)" by simp_all
  then show ?thesis unfolding sends_only_def by blast
qed

lemma sends_only_write_pkt: "R p \<Longrightarrow> sends_only R s (write_pkt s p)"
  unfolding sends_only_def write_pkt_def
  by (cases "is_open s") (auto intro: exI[of _ "[p]"] exI[of _ "[]"])

lemma sends_only_erase_retry:
  "R (firmware_command_packet op mid c a) \<Longrightarrow>
   sends_only R s (fst (snd (erase_retry s evs op mid c a k)))"
proof (induction s evs op mid c a k rule: erase_retry.induct)
  case (1 s evs op mid c a k)
  let ?s1 = "send_firmware_command s op mid c a"
  let ?r = "receive_firmware_command_response evs"
  have a1: "sends_only R s ?s1"
    unfolding send_firmware_command_def by (rule sends_only_write_pkt[where R = R, OF "1.prems"])
  show ?case
  proof (cases "k + 1 > max_retry \<or> fst ?r")
    case True
    then show ?thesis using a1 by (subst erase_retry.simps) (auto simp: Let_def)
  next
    case False
    then have "sends_only R ?s1 (fst (snd (erase_retry ?s1 (snd ?r) op mid c a (k + 1))))"
      using "1.IH"[OF refl refl refl _ _ "1.prems"] by simp
    with a1 False show ?thesis
      by (subst erase_retry.simps) (auto simp: Let_def intro: sends_only_trans)
  qed
qed

lemma sends_only_set_firmware_command:
  assumes "R (firmware_command_packet op mid c a)"
  shows "sends_only R s (fst (snd (set_firmware_command s evs op mid c a)))"
proof -
  have a1: "sends_only R s (send_firmware_command s op mid c a)"
    unfolding send_firmware_command_def by (rule sends_only_write_pkt[where R = R, OF assms])
  show ?thesis
    using a1 sends_only_erase_retry[where R = R and s = "send_firmware_command s op mid c a", OF assms]
    by (auto simp: set_firmware_command_def Let_def intro: sends_only_trans)
qed

lemma sends_only_end_flash_chunks:
  "\<forall>ptr\<in>set ptrs. R \<lparr>cmd = 0x0B, sid = ptr div 8, did = mid,
                          payload = Data (slice blk ptr (ptr + 8))\<rparr> \<Longrightarrow>
   sends_only R s (snd (send_end_flash_chunks s mid blk c ptrs))"
proof (induction ptrs arbitrary: s c)
  case Nil
  then show ?case by (simp add: sends_only_refl)
next
  case (Cons p ptrs)
  have r: "R \<lparr>cmd = 0x0B, sid = p div 8, did = mid, payload = Data (slice blk p (p + 8))\<rparr>"
    using Cons.prems by simp
  have a: "sends_only R s (snd (set_firmware_data s mid (p div 8) (slice blk p (p + 8)) c))"
    unfolding set_firmware_data_def send_firmware_data_def
    using sends_only_write_pkt[where R = R, OF r] by simp
  have "\<forall>ptr\<in>set ptrs. R \<lparr>cmd = 0x0B, sid = ptr div 8, did = mid,
                          payload = Data (slice blk ptr (ptr + 8))\<rparr>"
    using Cons.prems by simp
  from Cons.IH[OF this] a show ?case
    by (simp add: Let_def) (rule sends_only_trans)
qed

lemma range_step8_multiple: "ptr \<in> set (range_step8 n) \<Longrightarrow> 8 * (ptr div 8) = ptr"
  by (auto simp: range_step8_def)

lemma range_step8_16: "range_step8 16 = [0, 8]"
  by (simp add: range_step8_def upt_rec)

lemma end_flash_block_length: "length (end_flash_block e v) = 16"
  by (simp add: end_flash_block_def Let_def upt_rec)

lemma end_flash_chunks_16:
  assumes "length blk = 16"
  shows "send_end_flash_chunks s mid blk c (range_step8 (int (length blk)))
     = (calc_crc64 (slice blk 8 16) (calc_crc64 (slice blk 0 8) c),
        write_pkt (write_pkt s (trailer_data_packets mid blk ! 0))
          (trailer_data_packets mid blk ! 1))"
  by (simp add: assms range_step8_16 Let_def set_firmware_data_def send_firmware_data_def
        trailer_data_packets_def)

lemma trailer_packet_erase:
  "trailer_packet mid blk (firmware_command_packet ''erase'' mid erase_page_num end_flash_addr)"
  by (simp add: trailer_packet_def trailer_erase_packet_def)

lemma trailer_packet_data:
  "trailer_packet mid blk (trailer_data_packets mid blk ! 0)"
  "trailer_packet mid blk (trailer_data_packets mid blk ! 1)"
  by (simp_all add: trailer_packet_def)

lemma trailer_packet_crc:
  "trailer_packet mid blk
     (firmware_command_packet ''crc'' mid
        (calc_crc64 (slice blk 8 16) (calc_crc64 (slice blk 0 8) 0)) end_flash_addr)"
  by (simp add: trailer_packet_def trailer_crc_packet_def)

lemma end_flash_chunks_trailer:
  assumes "length blk = 16"
  shows "sends_only (trailer_packet mid blk) s
     (snd (send_end_flash_chunks s mid blk c (range_step8 (int (length blk)))))"
  unfolding end_flash_chunks_16[OF assms] snd_conv
  by (rule sends_only_trans[OF sends_only_write_pkt[where R = "trailer_packet mid blk"]
        sends_only_write_pkt[where R = "trailer_packet mid blk"]])
     (rule trailer_packet_data)+

text \<open>What \<open>end_flash_loop\<close> may change: packets appended, and the error code and message.\<close>

lemma end_flash_loop_changes:
  "length blk = 16 \<Longrightarrow>
   \<exists>tr. fst (snd (end_flash_loop s evs mid blk k))
          = s\<lparr>sent := sent s @ tr,
              update_error := update_error (fst (snd (end_flash_loop s evs mid blk k))),
              update_error_message :=
                update_error_message (fst (snd (end_flash_loop s evs mid blk k)))\<rparr>
        \<and> list_all (trailer_packet mid blk) tr"
proof (induction s evs mid blk k rule: end_flash_loop.induct)
  case (1 s evs module_id end_flash_data page_retry_count)
  note len = "1.prems"
  obtain ok1 s1 evs1 where e1: "set_firmware_command s evs ''erase'' module_id erase_page_num
      end_flash_addr = (ok1, s1, evs1)"
    by (metis prod_cases3)
  have "sends_only (trailer_packet module_id end_flash_data) s s1"
    using sends_only_set_firmware_command[where R = "trailer_packet module_id end_flash_data"
        and op = "''erase''" and mid = module_id and c = erase_page_num and a = end_flash_addr
        and s = s and evs = evs, OF trailer_packet_erase] e1 by simp
  then obtain t1 where t1: "s1 = s\<lparr>sent := sent s @ t1\<rparr>"
      "list_all (trailer_packet module_id end_flash_data) t1"
    unfolding sends_only_def by blast
  show ?case
  proof (cases ok1)
    case False
    have "end_flash_loop s evs module_id end_flash_data page_retry_count
        = (False, s1\<lparr>update_error := - 1, update_error_message := ''End erase error''\<rparr>, evs1)"
      using e1 False by (subst end_flash_loop.simps) simp
    with t1 show ?thesis by (intro exI[of _ t1]) simp
  next
    case True
    obtain checksum s2 where w: "send_end_flash_chunks s1 module_id end_flash_data 0
        (range_step8 (int (length end_flash_data))) = (checksum, s2)"
      by (metis surj_pair)
    have cs: "checksum = calc_crc64 (slice end_flash_data 8 16)
                (calc_crc64 (slice end_flash_data 0 8) 0)"
      using end_flash_chunks_16[OF len, of s1 module_id 0] w by simp
    have "sends_only (trailer_packet module_id end_flash_data) s1 s2"
      using end_flash_chunks_trailer[OF len, of module_id s1 0] w by simp
    then obtain t2 where t2: "s2 = s1\<lparr>sent := sent s1 @ t2\<rparr>"
        "list_all (trailer_packet module_id end_flash_data) t2"
      unfolding sends_only_def by blast
    obtain ok3 s3 evs3 where e3: "set_firmware_command s2 evs1 ''crc'' module_id checksum
        end_flash_addr = (ok3, s3, evs3)"
      by (metis prod_cases3)
    have "sends_only (trailer_packet module_id end_flash_data) s2 s3"
      using sends_only_set_firmware_command[where R = "trailer_packet module_id end_flash_data"
          and op = "''crc''" and mid = module_id and c = checksum and a = end_flash_addr
          and s = s2 and evs = evs1, OF trailer_packet_crc[of module_id end_flash_data,
            folded cs]] e3 by simp
    then obtain t3 where t3: "s3 = s2\<lparr>sent := sent s2 @ t3\<rparr>"
        "list_all (trailer_packet module_id end_flash_data) t3"
      unfolding sends_only_def by blast
    have s3: "s3 = s\<lparr>sent := sent s @ (t1 @ t2 @ t3)\<rparr>"
        "list_all (trailer_packet module_id end_flash_data) (t1 @ t2 @ t3)"
      using t1 t2 t3 by simp_all
    show ?thesis
    proof (cases ok3)
      case ok: True
      have "end_flash_loop s evs module_id end_flash_data page_retry_count = (True, s3, evs3)"
        using e1 True w e3 ok by (subst end_flash_loop.simps) simp
      with s3 show ?thesis by (intro exI[of _ "t1 @ t2 @ t3"]) simp
    next
      case crcfail: False
      show ?thesis
      proof (cases "update_error s3 = - 1")
        case True
        have "end_flash_loop s evs module_id end_flash_data page_retry_count = (False, s3, evs3)"
          using e1 \<open>ok1\<close> w e3 crcfail True by (subst end_flash_loop.simps) simp
        with s3 show ?thesis by (intro exI[of _ "t1 @ t2 @ t3"]) simp
      next
        case ue: False
        show ?thesis
        proof (cases "page_retry_count + 1 > page_retry_max_count")
          case True
          have "end_flash_loop s evs module_id end_flash_data page_retry_count
              = (False, s3\<lparr>update_error := - 1, update_error_message := ''End crc error''\<rparr>,
                 evs3)"
            using e1 \<open>ok1\<close> w e3 crcfail ue True by (subst end_flash_loop.simps) simp
          with s3 show ?thesis by (intro exI[of _ "t1 @ t2 @ t3"]) simp
        next
          case again: False
          have eq: "end_flash_loop s evs module_id end_flash_data page_retry_count
              = end_flash_loop s3 evs3 module_id end_flash_data (page_retry_count + 1)"
            using e1 \<open>ok1\<close> w e3 crcfail ue again by (subst end_flash_loop.simps) simp
          have ne: "\<not> \<not> ok1" using \<open>ok1\<close> by simp
          from "1.IH"[OF e1[symmetric] refl ne w[symmetric] e3[symmetric] refl crcfail ue again len]
          obtain t4 where t4:
            "fst (snd (end_flash_loop s3 evs3 module_id end_flash_data (page_retry_count + 1)))
               = s3\<lparr>sent := sent s3 @ t4,
                  update_error := update_error (fst (snd (end_flash_loop s3 evs3 module_id
                      end_flash_data (page_retry_count + 1)))),
                  update_error_message := update_error_message (fst (snd (end_flash_loop s3
                      evs3 module_id end_flash_data (page_retry_count + 1))))\<rparr>"
            "list_all (trailer_packet module_id end_flash_data) t4"
            by blast
          show ?thesis
            unfolding eq
            apply (rule exI[of _ "t1 @ t2 @ t3 @ t4"])
            apply (subst t4(1))
            using s3 t4(2) by simp
        qed
      qed
    qed
  qed
qed

lemma get_connected_module_info_sends:
  "sends_only (\<lambda>p. cmd p = 0x28) s (fst (snd (get_connected_module_info gt s evs)))"
proof (induction evs arbitrary: s)
  case Nil
  show ?case
    by (simp add: send_request_network_uuid_def sends_only_write_pkt[where R = "\<lambda>p. cmd p = 0x28"])
next
  case (Cons e evs)
  have a: "sends_only (\<lambda>p. cmd p = 0x28) s (send_request_network_uuid s)"
    by (simp add: send_request_network_uuid_def sends_only_write_pkt[where R = "\<lambda>p. cmd p = 0x28"])
  note ih = sends_only_trans[OF a Cons.IH[of "send_request_network_uuid s"]]
  show ?case
    using a ih by (cases "recved e") (auto simp: Let_def)
qed

lemma warning_wait_fields:
  "warning_wait gt s evs retry = (t, s', evs') \<Longrightarrow>
   progress s' = progress s \<and> progress_log s' = progress_log s \<and>
   has_update_error s' = has_update_error s \<and> update_error s' = update_error s \<and>
   update_error_message s' = update_error_message s \<and> is_open s' = is_open s \<and>
   (\<exists>tr. sent s' = sent s @ tr \<and> list_all (\<lambda>p. cmd p = 0x09) tr)"
proof (induction evs arbitrary: s retry)
  case Nil
  then show ?case by auto
next
  case (Cons e evs)
  show ?case
  proof (cases "recved e")
    case NoJson
    show ?thesis
    proof (cases "retry + 1 > warning_max_retry")
      case True
      with NoJson Cons.prems show ?thesis by auto
    next
      case False
      with NoJson Cons.prems have "warning_wait gt s evs (retry + 1) = (t, s', evs')" by simp
      from Cons.IH[OF this] show ?thesis .
    qed
  next
    case BadJson
    show ?thesis
    proof (cases "10000 < elapsed e")
      case True
      with BadJson Cons.prems show ?thesis by auto
    next
      case False
      with BadJson Cons.prems have "warning_wait gt s evs retry = (t, s', evs')" by simp
      from Cons.IH[OF this] show ?thesis .
    qed
  next
    case (Json c b)
    define module_uuid where "module_uuid = unpack_data b [6, 1] ! 0"
    define warning_type where "warning_type = unpack_data b [6, 1] ! 1"
    show ?thesis
    proof (cases "10000 < elapsed e")
      case True
      with Json Cons.prems show ?thesis by auto
    next
      case intime: False
      show ?thesis
      proof (cases "c = 0x0A \<and> is_updatable (gt module_uuid)")
        case False
        with Json intime Cons.prems have "warning_wait gt s evs retry = (t, s', evs')"
          by (auto simp: Let_def module_uuid_def split: if_splits)
        from Cons.IH[OF this] show ?thesis .
      next
        case True
        define s1 where "s1 = (if \<not> truthy_int (network_uuid s)
                               then s\<lparr>network_uuid := Some module_uuid,
                                      network_id := Some (module_uuid AND 0xFFF)\<rparr>
                               else s)"
        define s2 where "s2 = s1\<lparr>is_network := Some (gt module_uuid = ''network'')\<rparr>"
        define s3 where "s3 = (if warning_type \<noteq> 2
                                then (case network_id s2 of
                                        None \<Rightarrow> s2
                                      | Some nid \<Rightarrow>
                                          send_set_module_state s2 nid UPDATE_FIRMWARE_READY PNP_OFF)
                                else s2)"
        have step: "warning_wait gt s (e # evs) retry
              = (if warning_type = 2 then (False, s3, evs) else warning_wait gt s3 evs retry)"
          using Json True intime
          by (simp add: Let_def module_uuid_def warning_type_def s1_def s2_def s3_def
                cong: option.case_cong)
        have "sends_only (\<lambda>p. cmd p = 0x09) s2 s3"
          unfolding s3_def send_set_module_state_def
          by (auto simp: sends_only_refl sends_only_write_pkt[where R = "\<lambda>p. cmd p = 0x09"]
                split: option.splits)
        then obtain t3 where t3: "s3 = s2\<lparr>sent := sent s2 @ t3\<rparr>"
            "list_all (\<lambda>p. cmd p = 0x09) t3"
          unfolding sends_only_def by blast
        have f3: "progress s3 = progress s" "progress_log s3 = progress_log s"
            "has_update_error s3 = has_update_error s" "update_error s3 = update_error s"
            "update_error_message s3 = update_error_message s" "is_open s3 = is_open s"
            "sent s3 = sent s @ t3"
          by (simp_all add: t3(1) s2_def s1_def)
        show ?thesis
        proof (cases "warning_type = 2")
          case True
          with step Cons.prems have "s' = s3" by simp
          with f3 t3(2) show ?thesis by auto
        next
          case False
          with step Cons.prems have "warning_wait gt s3 evs retry = (t, s', evs')" by simp
          from Cons.IH[OF this] obtain t4 where t4:
            "progress s' = progress s3" "progress_log s' = progress_log s3"
            "has_update_error s' = has_update_error s3" "update_error s' = update_error s3"
            "update_error_message s' = update_error_message s3" "is_open s' = is_open s3"
            "sent s' = sent s3 @ t4" "list_all (\<lambda>p. cmd p = 0x09) t4"
            by blast
          have "sent s' = sent s @ (t3 @ t4)" "list_all (\<lambda>p. cmd p = 0x09) (t3 @ t4)"
            using t4 f3 t3(2) by simp_all
          with t4 f3 show ?thesis by metis
        qed
      qed
    qed
  qed
qed

lemma end_flash_loop_fields:
  assumes "end_flash_loop s evs mid blk k = (ok, s', evs')" "length blk = 16"
  shows "progress s' = progress s \<and> progress_log s' = progress_log s \<and>
         has_update_error s' = has_update_error s \<and> is_open s' = is_open s \<and>
         (\<exists>tr. sent s' = sent s @ tr \<and> list_all (trailer_packet mid blk) tr)"
proof -
  obtain tr where eq: "s' = s\<lparr>sent := sent s @ tr, update_error := update_error s',
        update_error_message := update_error_message s'\<rparr>"
      and tr: "list_all (trailer_packet mid blk) tr"
    using end_flash_loop_changes[OF assms(2), of s evs mid k] assms(1) by auto
  have "progress s' = progress s" by (subst eq) simp
  moreover have "progress_log s' = progress_log s" by (subst eq) simp
  moreover have "has_update_error s' = has_update_error s" by (subst eq) simp
  moreover have "is_open s' = is_open s" by (subst eq) simp
  moreover have "sent s' = sent s @ tr" by (subst eq) simp
  ultimately show ?thesis using tr by blast
qed

lemma end_flash_loop_first_packet:
  assumes "end_flash_loop s evs mid blk k = (ok, s', evs')" "is_open s" "length blk = 16"
  shows "\<exists>tr. sent s' = sent s
            @ firmware_command_packet ''erase'' mid erase_page_num end_flash_addr # tr"
proof -
  let ?pkt = "firmware_command_packet ''erase'' mid erase_page_num end_flash_addr"
  let ?s0 = "send_firmware_command s ''erase'' mid erase_page_num end_flash_addr"
  obtain ok1 s1 evs1 where e1: "set_firmware_command s evs ''erase'' mid erase_page_num
      end_flash_addr = (ok1, s1, evs1)"
    by (metis prod_cases3)
  have s0: "sent ?s0 = sent s @ [?pkt]"
    using assms(2) by (simp add: send_firmware_command_def write_pkt_def)
  have "appends_sent ?s0 s1"
    using e1 appends_sent_erase_retry[of ?s0 "snd (receive_firmware_command_response evs)"
        "''erase''" mid erase_page_num end_flash_addr 0]
    by (auto simp: set_firmware_command_def Let_def appends_sent_refl split: if_splits)
  then obtain t1 where t1: "sent s1 = sent s @ ?pkt # t1"
    using s0 unfolding appends_sent_def by auto
  have rest: "\<exists>t. sent s' = sent s1 @ t"
  proof (cases ok1)
    case False
    then have "s' = s1\<lparr>update_error := - 1, update_error_message := ''End erase error''\<rparr>"
      using assms(1) e1 by (subst (asm) end_flash_loop.simps) simp
    then show ?thesis by simp
  next
    case True
    obtain checksum s2 where w: "send_end_flash_chunks s1 mid blk 0
        (range_step8 (int (length blk))) = (checksum, s2)"
      by (metis surj_pair)
    obtain ok3 s3 evs3 where e3: "set_firmware_command s2 evs1 ''crc'' mid checksum
        end_flash_addr = (ok3, s3, evs3)"
      by (metis prod_cases3)
    have "appends_sent s1 s2"
      using appends_sent_end_flash_chunks[of s1 mid blk 0 "range_step8 (int (length blk))"] w
      by simp
    moreover have "appends_sent s2 s3"
      using appends_sent_set_firmware_command[of s2 evs1 "''crc''" mid checksum end_flash_addr] e3
      by simp
    ultimately obtain t3 where t3: "sent s3 = sent s1 @ t3"
      unfolding appends_sent_def by auto
    from assms(1) e1 True w e3
    have "s' = s3 \<or> s' = s3\<lparr>update_error := - 1, update_error_message := ''End crc error''\<rparr>
          \<or> end_flash_loop s3 evs3 mid blk (k + 1) = (ok, s', evs')"
      by (subst (asm) end_flash_loop.simps) (auto split: if_splits)
    then have "\<exists>t. sent s' = sent s3 @ t"
      using end_flash_loop_fields[of s3 evs3 mid blk "k + 1" ok s' evs'] assms(3) by auto
    with t3 show ?thesis by auto
  qed
  with t1 show ?thesis by auto
qed


lemma end_flash_loop_ok_message:
  "end_flash_loop s evs mid blk k = (True, s', evs') \<Longrightarrow>
   update_error_message s' = update_error_message s \<and> update_error s' = update_error s"
proof (induction s evs mid blk k rule: end_flash_loop.induct)
  case (1 s evs module_id end_flash_data page_retry_count)
  obtain ok1 s1 evs1 where e1: "set_firmware_command s evs ''erase'' module_id erase_page_num
      end_flash_addr = (ok1, s1, evs1)"
    by (metis prod_cases3)
  have ok1: ok1
    using "1.prems" e1 by (subst (asm) end_flash_loop.simps) (auto split: if_splits)
  obtain checksum s2 where w: "send_end_flash_chunks s1 module_id end_flash_data 0
      (range_step8 (int (length end_flash_data))) = (checksum, s2)"
    by (metis surj_pair)
  obtain ok3 s3 evs3 where e3: "set_firmware_command s2 evs1 ''crc'' module_id checksum
      end_flash_addr = (ok3, s3, evs3)"
    by (metis prod_cases3)
  have f1: "update_error_message s1 = update_error_message s" "update_error s1 = update_error s"
    using set_firmware_command_fields[OF e1] by simp_all
  have f2: "update_error_message s2 = update_error_message s1" "update_error s2 = update_error s1"
    using appends_sent_fields[OF appends_sent_end_flash_chunks[of s1 module_id end_flash_data 0
          "range_step8 (int (length end_flash_data))"]] w by simp_all
  have f3: "update_error_message s3 = update_error_message s2" "update_error s3 = update_error s2"
    using set_firmware_command_fields[OF e3] by simp_all
  from "1.prems" e1 ok1 w e3
  have "(ok3 \<and> s' = s3) \<or>
        (\<not> ok3 \<and> update_error s3 \<noteq> - 1 \<and> \<not> page_retry_count + 1 > page_retry_max_count \<and>
         end_flash_loop s3 evs3 module_id end_flash_data (page_retry_count + 1) = (True, s', evs'))"
    by (subst (asm) end_flash_loop.simps) (auto split: if_splits)
  then show ?case
  proof
    assume "ok3 \<and> s' = s3"
    with f1 f2 f3 show ?thesis by simp
  next
    assume a: "\<not> ok3 \<and> update_error s3 \<noteq> - 1 \<and> \<not> page_retry_count + 1 > page_retry_max_count \<and>
         end_flash_loop s3 evs3 module_id end_flash_data (page_retry_count + 1) = (True, s', evs')"
    have ne: "\<not> \<not> ok1" using ok1 by simp
    from "1.IH"[OF e1[symmetric] refl ne w[symmetric] e3[symmetric] refl] a
    have "update_error_message s' = update_error_message s3 \<and> update_error s' = update_error s3"
      by simp
    with f1 f2 f3 show ?thesis by simp
  qed
qed

lemma end_flash_phase_fields:
  assumes "end_flash_phase v s evs mid = Inr (ok, s', evs')"
  shows "\<exists>version tr.
           parse_version v = Inr version \<and>
           progress s' = 100 \<and> progress_log s' = progress_log s @ [99, 100] \<and>
           \<not> is_open s' \<and> ok = (\<not> has_update_error s') \<and>
           (has_update_error s \<longrightarrow> has_update_error s') \<and>
           (has_update_error s' \<longrightarrow>
              update_error_message s' = ''version writing failed.''
              \<or> (has_update_error s \<and> update_error_message s' = update_error_message s)) \<and>
           sent s' = sent s @ tr \<and>
           list_all (\<lambda>p. trailer_packet mid (end_flash_block (has_update_error s) version) p
                          \<or> p = reboot_packet) tr \<and>
           (is_open s \<longrightarrow> (\<exists>tr'. tr = firmware_command_packet ''erase'' mid erase_page_num
                                           end_flash_addr # tr'))"
proof -
  from assms obtain version where v: "parse_version v = Inr version"
    by (cases "parse_version v") (auto simp: end_flash_phase_def Let_def)
  define blk where "blk = end_flash_block (has_update_error s) version"
  define s1 where "s1 = set_progress s 99"
  obtain ok2 s2 evs2 where e: "end_flash_loop s1 evs mid blk 0 = (ok2, s2, evs2)"
    by (metis prod_cases3)
  define s3 where "s3 = (if \<not> ok2 then s2\<lparr>update_error_message := ''version writing failed.'',
                                          has_update_error := True\<rparr> else s2)"
  define s4 where "s4 = send_set_module_state s3 0xFFF REBOOT PNP_OFF"
  have r: "s' = close (set_progress s4 100)" "ok = (\<not> has_update_error s4)" "evs' = evs2"
    using assms v e
    by (auto simp: end_flash_phase_def Let_def set_end_flash_data_def s1_def blk_def s3_def
          s4_def set_progress_def close_def)
  obtain t2 where f2: "progress s2 = progress s1" "progress_log s2 = progress_log s1"
      "has_update_error s2 = has_update_error s1" "is_open s2 = is_open s1"
      "sent s2 = sent s1 @ t2" "list_all (trailer_packet mid blk) t2"
    using end_flash_loop_fields[OF e] end_flash_block_length by (auto simp: blk_def)
  have f2ok: "ok2 \<longrightarrow> update_error_message s2 = update_error_message s1"
    using end_flash_loop_ok_message[of s1 evs mid blk 0 s2 evs2] e by auto
  have first: "is_open s \<longrightarrow> (\<exists>tr'. t2 = firmware_command_packet ''erase'' mid erase_page_num
                                           end_flash_addr # tr')"
  proof
    assume "is_open s"
    then have "is_open s1" by (simp add: s1_def set_progress_def)
    from end_flash_loop_first_packet[OF e this] end_flash_block_length f2(5) show "\<exists>tr'. t2 =
        firmware_command_packet ''erase'' mid erase_page_num end_flash_addr # tr'"
      by (auto simp: blk_def)
  qed
  let ?tr = "t2 @ (if is_open s then [reboot_packet] else [])"
  have s4s: "sent s4 = sent s @ ?tr" "is_open s4 = is_open s"
      "has_update_error s4 = (has_update_error s \<or> \<not> ok2)"
      "progress_log s4 = progress_log s @ [99]"
      "update_error_message s4 = (if \<not> ok2 then ''version writing failed.''
                                   else update_error_message s)"
    using f2 f2ok
    by (auto simp: s4_def s3_def send_set_module_state_def write_pkt_def reboot_packet_def
          s1_def set_progress_def)
  have a: "progress s' = 100" "progress_log s' = progress_log s @ [99, 100]" "\<not> is_open s'"
      "has_update_error s' = has_update_error s4" "sent s' = sent s @ ?tr"
      "update_error_message s' = update_error_message s4"
    using s4s by (simp_all add: r(1) set_progress_def close_def)
  have l: "list_all (\<lambda>p. trailer_packet mid blk p \<or> p = reboot_packet) ?tr"
    using f2(6) by (auto simp: list_all_iff)
  have fst': "is_open s \<longrightarrow> (\<exists>tr'. ?tr = firmware_command_packet ''erase'' mid erase_page_num
                                           end_flash_addr # tr')"
    using first by auto
  show ?thesis
    apply (rule exI[of _ version])
    apply (rule exI[of _ ?tr])
    using v a r(2) s4s(3,5) l fst' unfolding blk_def by auto
qed

lemma sends_only_fields:
  "sends_only R s s' \<Longrightarrow>
   progress_log s' = progress_log s \<and> progress s' = progress s \<and> is_open s' = is_open s \<and>
   has_update_error s' = has_update_error s \<and> update_error s' = update_error s \<and>
   update_error_message s' = update_error_message s \<and> network_id s' = network_id s \<and>
   (\<exists>tr. sent s' = sent s @ tr \<and> list_all R tr)"
  unfolding sends_only_def by auto

lemma page_loop_progress_log:
  assumes "0 \<le> pb" "sorted (progress_log s)" "\<forall>x\<in>set (progress_log s). x \<le> 99"
      and "pb < be \<longrightarrow> (\<forall>x\<in>set (progress_log s). x \<le> 100 * pb div be)"
  shows "\<exists>s' evs' pb'. page_loop l m buf bs be s evs pb e c = (s', evs', pb') \<and>
           sorted (progress_log s') \<and> (\<forall>x\<in>set (progress_log s'). x \<le> 99)"
proof -
  define I where "I = (\<lambda>(s::updater) (pb::int). 0 \<le> pb \<and> sorted (progress_log s) \<and>
      (\<forall>x\<in>set (progress_log s). x \<le> 99) \<and>
      (pb < be \<longrightarrow> (\<forall>x\<in>set (progress_log s). x \<le> 100 * pb div be)))"
  define I' where "I' = (\<lambda>(s::updater) (pb::int). 0 \<le> pb \<and> pb < be \<and> sorted (progress_log s) \<and>
      (\<forall>x\<in>set (progress_log s). x \<le> 99) \<and>
      (\<forall>x\<in>set (progress_log s). x \<le> 100 * pb div be))"
  have "\<exists>s' evs' pb'. page_loop l m buf bs be s evs pb e c = (s', evs', pb') \<and>
           ((\<not> pb' < be \<and> I s' pb') \<or>
            (pb' < be \<and> (\<exists>s'' msg. I' s'' pb' \<and> msg \<noteq> [] \<and>
               s' = s''\<lparr>has_update_error := True, update_error_message := msg\<rparr>)))"
  proof (rule page_loop_invariant[where I = I and I' = I'])
    show "I s pb" using assms by (simp add: I_def)
  next
    fix s :: updater and pb :: int
    assume "I s pb" "pb < be"
    then show "I' (set_progress s (100 * pb div be)) pb"
      using progress_below_100[of pb be]
      by (auto simp: I_def I'_def set_progress_def sorted_append)
  next
    fix s s' :: updater and pb :: int
    assume "I' s pb" "appends_sent s s'"
    then show "I' s' pb" using appends_sent_fields[of s s'] by (simp add: I'_def)
  next
    fix s :: updater and pb :: int
    assume a: "I' s pb"
    then have p: "0 \<le> pb" "pb < be" by (simp_all add: I'_def)
    have "100 * pb div be \<le> 100 * (pb + page_size) div be"
      by (rule progress_mono[OF p]) (simp add: page_size_def)
    with a show "I s (pb + page_size)" by (auto simp: I_def I'_def page_size_def)
  next
    fix s :: updater and pb :: int
    assume "I' s pb"
    then show "I s pb" by (simp add: I_def I'_def)
  qed
  then obtain s' evs' pb' where r: "page_loop l m buf bs be s evs pb e c = (s', evs', pb')"
      "(\<not> pb' < be \<and> I s' pb') \<or>
       (pb' < be \<and> (\<exists>s'' msg. I' s'' pb' \<and> msg \<noteq> [] \<and>
          s' = s''\<lparr>has_update_error := True, update_error_message := msg\<rparr>))"
    by blast
  from r(2) have "sorted (progress_log s') \<and> (\<forall>x\<in>set (progress_log s'). x \<le> 99)"
    by (auto simp: I_def I'_def)
  with r(1) show ?thesis by blast
qed

lemma update_module_progress_log:
  assumes "update_module label v buf s evs mid = Inr (ok, s', evs')"
      and "progress_log s = [0]"
  shows "sorted (progress_log s') \<and> progress_log s' \<noteq> [] \<and>
         last (progress_log s') = progress s' \<and> progress s' = 100"
proof -
  let ?be = "bin_end_of (sys_getsizeof buf)"
  have nn: "bin_begin < ?be \<longrightarrow> (\<forall>x\<in>set (progress_log s). x \<le> 100 * bin_begin div ?be)"
    using assms(2) by (auto simp: bin_begin_def page_size_def pos_imp_zdiv_nonneg_iff)
  obtain s1 evs1 pb1 where pl: "page_loop label mid buf (sys_getsizeof buf) ?be s evs bin_begin 0 0
      = (s1, evs1, pb1)" "sorted (progress_log s1)" "\<forall>x\<in>set (progress_log s1). x \<le> 99"
    using page_loop_progress_log[of bin_begin s ?be label mid buf "sys_getsizeof buf" evs 0 0]
      assms(2) nn
    by (auto simp: bin_begin_def page_size_def)
  from assms(1) pl(1) have "end_flash_phase v s1 evs1 mid = Inr (ok, s', evs')"
    by (simp add: update_module_def Let_def)
  from end_flash_phase_fields[OF this]
  have f: "progress s' = 100" "progress_log s' = progress_log s1 @ [99, 100]" by auto
  have "sorted (progress_log s1 @ [99, 100])"
    using pl(2,3) by (auto simp: sorted_append)
  with f show ?thesis by simp
qed

lemma finish_run_fields:
  "finish_run r = Inr (s', evs') \<Longrightarrow>
   \<exists>ok s evs. r = Inr (ok, s, evs) \<and> evs' = evs \<and>
     s' = s\<lparr>is_open := False, update_error := (if \<not> ok then - 1 else 1),
            update_in_progress := False\<rparr>"
  by (cases r) (auto simp: finish_run_def close_def Let_def)

lemma enter_bootloader_fields:
  "progress (enter_bootloader s info) = progress s \<and>
   progress_log (enter_bootloader s info) = progress_log s \<and>
   has_update_error (enter_bootloader s info) = has_update_error s \<and>
   is_open (enter_bootloader s info) \<and>
   (\<exists>tr. sent (enter_bootloader s info) = sent s @ tr \<and> list_all (\<lambda>p. cmd p = 0xA4) tr)"
proof -
  obtain uuid ver isn where info: "info = (uuid, ver, isn)" by (metis prod_cases3)
  define nid where "nid = (case uuid of None \<Rightarrow> 0xFFF
                           | Some u \<Rightarrow> if u \<noteq> 0 then u AND 0xFFF else (0xFFF::int))"
  define s2 where "s2 = s\<lparr>network_uuid := uuid, network_version := ver, is_network := isn,
                            network_id := Some nid\<rparr>"
  define s3 where "s3 = send_set_network_module_state s2 nid UPDATE_FIRMWARE PNP_OFF"
  have e: "enter_bootloader s info = reopen (close s3)"
    by (simp add: info enter_bootloader_def Let_def s3_def s2_def nid_def)
  have "sends_only (\<lambda>p. cmd p = 0xA4) s2 s3"
    unfolding s3_def send_set_network_module_state_def
    by (rule sends_only_write_pkt[where R = "\<lambda>p. cmd p = 0xA4"]) simp
  from sends_only_fields[OF this] show ?thesis
    by (auto simp: e reopen_def close_def s2_def)
qed

lemma update_module_firmware_phases:
  "warning_phase gt s evs = (is_timeout, s2, evs2) \<Longrightarrow>
   update_module_firmware gt fw s evs
     = (if is_timeout then Inr (warning_timeout s2, evs2)
        else finish_run (run_module_update fw s2 evs2))"
  by (auto simp: update_module_firmware_def warning_phase_def Let_def split: prod.splits)

lemma warning_wait_network_id:
  "warning_wait gt s evs retry = (t, s', evs') \<Longrightarrow> network_id s \<noteq> None \<Longrightarrow>
   network_id s' \<noteq> None"
proof (induction evs arbitrary: s retry)
  case Nil
  then show ?case by simp
next
  case (Cons e evs)
  show ?case
  proof (cases "recved e")
    case NoJson
    with Cons.prems Cons.IH[of s "retry + 1"] show ?thesis
      by (auto split: if_splits)
  next
    case BadJson
    with Cons.prems Cons.IH[of s retry] show ?thesis
      by (auto split: if_splits)
  next
    case (Json c b)
    define module_uuid where "module_uuid = unpack_data b [6, 1] ! 0"
    define warning_type where "warning_type = unpack_data b [6, 1] ! 1"
    define s1 where "s1 = (if \<not> truthy_int (network_uuid s)
                           then s\<lparr>network_uuid := Some module_uuid,
                                  network_id := Some (module_uuid AND 0xFFF)\<rparr>
                           else s)"
    define s2 where "s2 = s1\<lparr>is_network := Some (gt module_uuid = ''network'')\<rparr>"
    define s3 where "s3 = (if warning_type \<noteq> 2
                            then (case network_id s2 of
                                    None \<Rightarrow> s2
                                  | Some nid \<Rightarrow>
                                      send_set_module_state s2 nid UPDATE_FIRMWARE_READY PNP_OFF)
                            else s2)"
    have f3: "network_id s3 \<noteq> None"
      using Cons.prems(2)
      by (auto simp: s3_def s2_def s1_def send_set_module_state_def write_pkt_def
            split: option.splits)
    show ?thesis
    proof (cases "c = 0x0A \<and> is_updatable (gt module_uuid)")
      case False
      with Json Cons.prems Cons.IH[of s retry] show ?thesis
        by (auto simp: Let_def module_uuid_def split: if_splits)
    next
      case True
      have step: "warning_wait gt s (e # evs) retry
            = (if 10000 < elapsed e then (True, s, evs)
               else if warning_type = 2 then (False, s3, evs)
               else warning_wait gt s3 evs retry)"
        using Json True
        by (simp add: Let_def module_uuid_def warning_type_def s1_def s2_def s3_def
              cong: option.case_cong)
      from Cons.prems(1)[unfolded step] f3 Cons.prems(2) Cons.IH[of s3 retry]
      show ?thesis by (auto split: if_splits)
    qed
  qed
qed

text \<open>What the first part of a run leaves to the update procedure.\<close>

lemma warning_phase_fields:
  assumes "warning_phase gt s evs = (t, s2, evs2)"
  shows "progress s2 = 0 \<and> progress_log s2 = progress_log s @ [0] \<and>
         has_update_error s2 = has_update_error s \<and> update_error s2 = update_error s \<and>
         update_error_message s2 = update_error_message s \<and>
         is_open s2 \<and> (\<exists>mid. network_id s2 = Some mid) \<and>
         (\<exists>tr. sent s2 = sent s @ tr \<and>
               list_all (\<lambda>p. cmd p = 0x28 \<or> cmd p = 0xA4 \<or> cmd p = 0x09) tr)"
proof -
  define s0 where "s0 = set_progress (s\<lparr>update_in_progress := True\<rparr>) 0"
  obtain info s1 evs1 where g: "get_connected_module_info gt s0 evs = (info, s1, evs1)"
    by (metis prod_cases3)
  define sb where "sb = enter_bootloader s1 info"
  have w: "warning_wait gt sb evs1 0 = (t, s2, evs2)"
    using assms g by (simp add: warning_phase_def Let_def s0_def sb_def)
  obtain t1 where f1: "progress s1 = 0" "progress_log s1 = progress_log s @ [0]"
      "has_update_error s1 = has_update_error s" "update_error s1 = update_error s"
      "update_error_message s1 = update_error_message s"
      "sent s1 = sent s @ t1" "list_all (\<lambda>p. cmd p = 0x28) t1"
    using sends_only_fields[OF get_connected_module_info_sends[of s0 gt evs]] g
    by (auto simp: s0_def set_progress_def)
  obtain tb where fb: "progress sb = 0" "progress_log sb = progress_log s @ [0]"
      "has_update_error sb = has_update_error s" "is_open sb" "sent sb = sent s1 @ tb"
      "list_all (\<lambda>p. cmd p = 0xA4) tb"
    using f1 enter_bootloader_fields[of s1 info] by (auto simp: sb_def)
  obtain uuid ver isn where info: "info = (uuid, ver, isn)" by (metis prod_cases3)
  have ub: "update_error sb = update_error s" "update_error_message sb = update_error_message s"
      "network_id sb \<noteq> None"
    using f1(4,5)
    by (simp_all add: info sb_def enter_bootloader_def Let_def reopen_def close_def
          send_set_network_module_state_def write_pkt_def)
  obtain tw where fw: "progress s2 = 0" "progress_log s2 = progress_log s @ [0]"
      "has_update_error s2 = has_update_error s" "update_error s2 = update_error s"
      "update_error_message s2 = update_error_message s"
      "is_open s2" "sent s2 = sent sb @ tw" "list_all (\<lambda>p. cmd p = 0x09) tw"
    using warning_wait_fields[OF w] fb ub by auto
  have snt: "sent s2 = sent s @ (t1 @ tb @ tw)"
      "list_all (\<lambda>p. cmd p = 0x28 \<or> cmd p = 0xA4 \<or> cmd p = 0x09) (t1 @ tb @ tw)"
    using f1 fb fw by (auto simp: list_all_iff)
  from warning_wait_network_id[OF w ub(3)] obtain mid where "network_id s2 = Some mid"
    by auto
  with fw snt show ?thesis by blast
qed

lemma run_module_update_chosen:
  "network_id s = Some mid \<Longrightarrow>
   run_module_update fw s evs
     = update_module (chosen_label s) (chosen_version fw s) (chosen_bin fw s) s evs mid"
  by (simp add: run_module_update_def update_network_module_def update_camera_module_def
        chosen_label_def chosen_version_def chosen_bin_def)

lemma update_module_page_phase:
  "page_phase fw s evs mid = (s1, evs1, pb) \<Longrightarrow>
   update_module (chosen_label s) (chosen_version fw s) (chosen_bin fw s) s evs mid
     = end_flash_phase (chosen_version fw s) s1 evs1 mid"
  by (simp add: update_module_def page_phase_def Let_def)

lemma update_module_progress_log_raise:
  assumes "update_module label v buf s evs mid = Inl (e, s')"
      and "progress_log s = [0]"
  shows "sorted (progress_log s') \<and> progress_log s' \<noteq> [] \<and>
         last (progress_log s') = progress s' \<and> progress s' = 99"
proof -
  let ?be = "bin_end_of (sys_getsizeof buf)"
  have nn: "bin_begin < ?be \<longrightarrow> (\<forall>x\<in>set (progress_log s). x \<le> 100 * bin_begin div ?be)"
    using assms(2) by (auto simp: bin_begin_def page_size_def pos_imp_zdiv_nonneg_iff)
  obtain s1 evs1 pb1 where pl: "page_loop label mid buf (sys_getsizeof buf) ?be s evs bin_begin 0 0
      = (s1, evs1, pb1)" "sorted (progress_log s1)" "\<forall>x\<in>set (progress_log s1). x \<le> 99"
    using page_loop_progress_log[of bin_begin s ?be label mid buf "sys_getsizeof buf" evs 0 0]
      assms(2) nn
    by (auto simp: bin_begin_def page_size_def)
  from assms(1) pl(1) have "end_flash_phase v s1 evs1 mid = Inl (e, s')"
    by (simp add: update_module_def Let_def)
  then have "s' = set_progress s1 99"
    by (auto simp: end_flash_phase_def Let_def split: sum.splits prod.splits)
  with pl(2,3) show ?thesis by (auto simp: set_progress_def sorted_append)
qed

text \<open>
  C9 (as amended). In every worker run the values stored in \<open>progress\<close> one after the
  other never decrease. When the warning wait timed out, the run returns with 0 as the
  only value stored. When the wait succeeded, the last value is 100 if the run returns,
  and 99 if it ends in an exception (the version of the catalogue does not parse).
\<close>

theorem progress_nondecreasing:
  assumes "warning_phase gt s evs = (is_timeout, s2, evs2)"
      and "progress_log s = []"
  shows "case update_module_firmware gt fw s evs of
           Inr (s', evs') \<Rightarrow>
             sorted (progress_log s') \<and> progress_log s' \<noteq> [] \<and>
             last (progress_log s') = progress s' \<and>
             (if is_timeout then progress_log s' = [0] else progress s' = 100)
         | Inl (e, s') \<Rightarrow>
             \<not> is_timeout \<and> sorted (progress_log s') \<and> progress_log s' \<noteq> [] \<and>
             last (progress_log s') = progress s' \<and> progress s' = 99"
proof (cases is_timeout)
  case True
  have "progress_log s2 = [0] \<and> progress s2 = 0"
    using warning_phase_fields[OF assms(1)] assms(2) by simp
  then show ?thesis
    using True by (simp add: update_module_firmware_phases[OF assms(1)] warning_timeout_def
        close_def)
next
  case False
  from warning_phase_fields[OF assms(1)] assms(2) obtain mid where
    f: "progress_log s2 = [0]" "network_id s2 = Some mid" by auto
  let ?u = "update_module (chosen_label s2) (chosen_version fw s2) (chosen_bin fw s2) s2 evs2 mid"
  have r: "update_module_firmware gt fw s evs = finish_run ?u"
    using False
    by (simp add: update_module_firmware_phases[OF assms(1)] run_module_update_chosen[OF f(2)])
  show ?thesis
  proof (cases ?u)
    case (Inl a)
    obtain e s' where a: "a = (e, s')" by (cases a)
    from update_module_progress_log_raise[OF Inl[unfolded a] f(1)]
    show ?thesis using False by (simp add: r Inl a finish_run_def)
  next
    case (Inr b)
    obtain ok s3 evs3 where b: "b = (ok, s3, evs3)" by (metis prod_cases3)
    from update_module_progress_log[OF Inr[unfolded b] f(1)]
    show ?thesis using False by (simp add: r Inr b finish_run_def close_def)
  qed
qed

theorem progress_nondecreasing_witness:
  "progress_log init_updater = [] \<and>
   fst (warning_phase sim_module_type init_updater
          ([identify_silence, network_ready] @ replicate 40 nak_reply)) = False \<and>
   (\<exists>s' evs'. update_module_firmware sim_module_type demo_firmware init_updater
        ([identify_silence, network_ready] @ replicate 40 nak_reply) = Inr (s', evs') \<and>
      sorted (progress_log s') \<and> progress_log s' = [0, 33, 66, 66, 66, 99, 100] \<and>
      last (progress_log s') = progress s' \<and> progress s' = 100)"
proof -
  let ?evs = "[identify_silence, network_ready] @ replicate 40 nak_reply"
  have e: "progress_log init_updater = []" by (simp add: init_updater_def)
  obtain t s2 evs2 where w: "warning_phase sim_module_type init_updater ?evs = (t, s2, evs2)"
    by (metis prod_cases3)
  have f: "fst (warning_phase sim_module_type init_updater ?evs) = False"
    by (simp add: warning_phase_def identify_silence_def network_ready_def sim_module_type_def
          is_updatable_def Let_def)
  with w have t: "\<not> t" by simp
  from progress_nondecreasing[OF w e, of demo_firmware] t
  have "sorted (progress_log s') \<and> last (progress_log s') = progress s' \<and> progress s' = 100"
    if "update_module_firmware sim_module_type demo_firmware init_updater ?evs = Inr (s', evs')"
    for s' evs'
    using that by simp
  from this[OF all_nak_network_run] all_nak_network_run e f show ?thesis by simp
qed

text \<open>
  The claim as it stands ends every run at 100. A run against a device that stays silent
  ends in the warning timeout with \<open>progress\<close> at 0.
\<close>

theorem progress_final_counterexample:
  "map_option progress
     (final_state (update_module_firmware sim_module_type demo_firmware init_updater
        (identify_silence # five_silent_reads))) = Some 0 \<and>
   map_option progress_log
     (final_state (update_module_firmware sim_module_type demo_firmware init_updater
        (identify_silence # five_silent_reads))) = Some [0] \<and>
   map_option update_error_message
     (final_state (update_module_firmware sim_module_type demo_firmware init_updater
        (identify_silence # five_silent_reads))) = Some ''Warning timeout''"
  by (simp add: update_module_firmware_def identify_silence_def five_silent_reads_def
        warning_max_retry_def Let_def final_state_def warning_timeout_def close_def
        enter_bootloader_def reopen_def send_set_network_module_state_def write_pkt_def
        send_request_network_uuid_def set_progress_def init_updater_def)

lemma map_filter_Cons_None: "f x = None \<Longrightarrow> List.map_filter f (x # xs) = List.map_filter f xs"
  by (simp add: List.map_filter_def)

lemma map_filter_Cons_Some: "f x = Some y \<Longrightarrow> List.map_filter f (x # xs) = y # List.map_filter f xs"
  by (simp add: List.map_filter_def)

lemma warning_wait_keeps_uuid:
  "warning_wait gt s evs retry = (t, s', evs') \<Longrightarrow> truthy_int (network_uuid s) \<Longrightarrow>
   network_uuid s' = network_uuid s \<and> network_id s' = network_id s"
proof (induction evs arbitrary: s retry)
  case Nil
  then show ?case by simp
next
  case (Cons e evs)
  show ?case
  proof (cases "recved e")
    case NoJson
    with Cons.prems Cons.IH[of s "retry + 1"] show ?thesis
      by (auto split: if_splits)
  next
    case BadJson
    with Cons.prems Cons.IH[of s retry] show ?thesis
      by (auto split: if_splits)
  next
    case (Json c b)
    define module_uuid where "module_uuid = unpack_data b [6, 1] ! 0"
    define warning_type where "warning_type = unpack_data b [6, 1] ! 1"
    define s2 where "s2 = s\<lparr>is_network := Some (gt module_uuid = ''network'')\<rparr>"
    define s3 where "s3 = (if warning_type \<noteq> 2
                            then (case network_id s2 of
                                    None \<Rightarrow> s2
                                  | Some nid \<Rightarrow>
                                      send_set_module_state s2 nid UPDATE_FIRMWARE_READY PNP_OFF)
                            else s2)"
    have f3: "network_id s3 = network_id s" "network_uuid s3 = network_uuid s"
      by (auto simp: s3_def s2_def send_set_module_state_def write_pkt_def split: option.splits)
    show ?thesis
    proof (cases "c = 0x0A \<and> is_updatable (gt module_uuid)")
      case False
      with Json Cons.prems Cons.IH[of s retry] show ?thesis
        by (auto simp: Let_def module_uuid_def split: if_splits)
    next
      case True
      have step: "warning_wait gt s (e # evs) retry
            = (if 10000 < elapsed e then (True, s, evs)
               else if warning_type = 2 then (False, s3, evs)
               else warning_wait gt s3 evs retry)"
        using Json True Cons.prems(2)
        by (simp add: Let_def module_uuid_def warning_type_def s2_def s3_def
              cong: option.case_cong)
      from Cons.prems(1)[unfolded step] f3 Cons.prems(2) Cons.IH[of s3 retry]
      show ?thesis by (auto split: if_splits)
    qed
  qed
qed

text \<open>
  A warning wait that succeeds has read, at some index \<open>k\<close>, the frame that ended it,
  and has taken the type from that frame and, when it started without a uuid, the uuid
  from the warning frames up to it.
\<close>

lemma warning_wait_adopts:
  "warning_wait gt s evs retry = (False, s', evs') \<Longrightarrow>
   \<exists>k<length evs. evs' = drop (Suc k) evs \<and> ready_frame gt (evs ! k) \<and>
     (\<exists>u'. warning_frame_uuid gt (evs ! k) = Some u' \<and>
            is_network s' = Some (gt u' = ''network'')) \<and>
     (\<not> truthy_int (network_uuid s) \<longrightarrow>
        network_uuid s' = Some (adopted_uuid (List.map_filter (warning_frame_uuid gt)
                                                (take (Suc k) evs))) \<and>
        network_id s' = Some (adopted_uuid (List.map_filter (warning_frame_uuid gt)
                                              (take (Suc k) evs)) AND 0xFFF))"
proof (induction evs arbitrary: s retry)
  case Nil
  then show ?case by simp
next
  case (Cons e evs)
  let ?us = "\<lambda>k xs. List.map_filter (warning_frame_uuid gt) (take (Suc k) xs)"
  have lift: "\<exists>k<length (e # evs). evs' = drop (Suc k) (e # evs) \<and> ready_frame gt ((e # evs) ! k) \<and>
     (\<exists>u'. warning_frame_uuid gt ((e # evs) ! k) = Some u' \<and>
            is_network s' = Some (gt u' = ''network'')) \<and>
     (\<not> truthy_int (network_uuid s) \<longrightarrow>
        network_uuid s' = Some (adopted_uuid (?us k (e # evs))) \<and>
        network_id s' = Some (adopted_uuid (?us k (e # evs)) AND 0xFFF))"
    if w: "warning_wait gt s evs r = (False, s', evs')" and n: "warning_frame_uuid gt e = None"
    for r
  proof -
    from Cons.IH[OF w] obtain k where k: "k < length evs" "evs' = drop (Suc k) evs"
        "ready_frame gt (evs ! k)"
        "\<exists>u'. warning_frame_uuid gt (evs ! k) = Some u' \<and> is_network s' = Some (gt u' = ''network'')"
        "\<not> truthy_int (network_uuid s) \<longrightarrow>
           network_uuid s' = Some (adopted_uuid (?us k evs)) \<and>
           network_id s' = Some (adopted_uuid (?us k evs) AND 0xFFF)"
      by blast
    have "?us (Suc k) (e # evs) = ?us k evs"
      using n by (simp add: map_filter_Cons_None)
    with k show ?thesis by (intro exI[of _ "Suc k"]) simp
  qed
  show ?case
  proof (cases "recved e")
    case NoJson
    with Cons.prems have "warning_wait gt s evs (retry + 1) = (False, s', evs')"
      by (auto split: if_splits)
    moreover have "warning_frame_uuid gt e = None" using NoJson
      by (simp add: warning_frame_uuid_def)
    ultimately show ?thesis by (rule lift)
  next
    case BadJson
    with Cons.prems have "warning_wait gt s evs retry = (False, s', evs')"
      by (auto split: if_splits)
    moreover have "warning_frame_uuid gt e = None" using BadJson
      by (simp add: warning_frame_uuid_def)
    ultimately show ?thesis by (rule lift)
  next
    case (Json c b)
    define module_uuid where "module_uuid = unpack_data b [6, 1] ! 0"
    define warning_type where "warning_type = unpack_data b [6, 1] ! 1"
    show ?thesis
    proof (cases "c = 0x0A \<and> is_updatable (gt module_uuid)")
      case False
      with Json Cons.prems have "warning_wait gt s evs retry = (False, s', evs')"
        by (auto simp: Let_def module_uuid_def split: if_splits)
      moreover have "warning_frame_uuid gt e = None" using Json False
        by (auto simp: warning_frame_uuid_def module_uuid_def)
      ultimately show ?thesis by (rule lift)
    next
      case True
      have wf: "warning_frame_uuid gt e = Some module_uuid"
        using Json True by (simp add: warning_frame_uuid_def module_uuid_def)
      define s1 where "s1 = (if \<not> truthy_int (network_uuid s)
                             then s\<lparr>network_uuid := Some module_uuid,
                                    network_id := Some (module_uuid AND 0xFFF)\<rparr>
                             else s)"
      define s2 where "s2 = s1\<lparr>is_network := Some (gt module_uuid = ''network'')\<rparr>"
      define s3 where "s3 = (if warning_type \<noteq> 2
                              then (case network_id s2 of
                                      None \<Rightarrow> s2
                                    | Some nid \<Rightarrow>
                                        send_set_module_state s2 nid UPDATE_FIRMWARE_READY PNP_OFF)
                              else s2)"
      have f3: "network_id s3 = network_id s1" "network_uuid s3 = network_uuid s1"
               "is_network s3 = Some (gt module_uuid = ''network'')"
        by (auto simp: s3_def s2_def send_set_module_state_def write_pkt_def split: option.splits)
      have f1: "\<not> truthy_int (network_uuid s) \<longrightarrow>
                  network_uuid s1 = Some module_uuid \<and> network_id s1 = Some (module_uuid AND 0xFFF)"
        by (simp add: s1_def)
      have step: "warning_wait gt s (e # evs) retry
            = (if 10000 < elapsed e then (True, s, evs)
               else if warning_type = 2 then (False, s3, evs)
               else warning_wait gt s3 evs retry)"
        using Json True
        by (simp add: Let_def module_uuid_def warning_type_def s1_def s2_def s3_def
              cong: option.case_cong)
      from step Cons.prems have intime: "\<not> 10000 < elapsed e" by (auto split: if_splits)
      show ?thesis
      proof (cases "warning_type = 2")
        case True
        with step Cons.prems intime have r: "s' = s3" "evs' = evs" by (auto split: if_splits)
        have rf: "ready_frame gt e"
          using Json \<open>c = 0x0A \<and> is_updatable (gt module_uuid)\<close> True intime
          by (simp add: ready_frame_def module_uuid_def warning_type_def)
        have ad: "adopted_uuid [module_uuid] = module_uuid"
          by (simp add: adopted_uuid_def)
        show ?thesis
          using r rf wf f3 f1 ad
          by (intro exI[of _ 0]) (simp add: map_filter_Cons_Some List.map_filter_def)
      next
        case False
        with step Cons.prems intime
        have w: "warning_wait gt s3 evs retry = (False, s', evs')"
          by (auto split: if_splits)
        from Cons.IH[OF w] obtain k where k: "k < length evs" "evs' = drop (Suc k) evs"
            "ready_frame gt (evs ! k)"
            "\<exists>u'. warning_frame_uuid gt (evs ! k) = Some u' \<and>
                  is_network s' = Some (gt u' = ''network'')"
            "\<not> truthy_int (network_uuid s3) \<longrightarrow>
               network_uuid s' = Some (adopted_uuid (?us k evs)) \<and>
               network_id s' = Some (adopted_uuid (?us k evs) AND 0xFFF)"
          by blast
        have us: "?us (Suc k) (e # evs) = module_uuid # ?us k evs"
          using wf by (simp add: map_filter_Cons_Some)
        have "network_uuid s' = Some (adopted_uuid (module_uuid # ?us k evs)) \<and>
              network_id s' = Some (adopted_uuid (module_uuid # ?us k evs) AND 0xFFF)"
          if nt: "\<not> truthy_int (network_uuid s)"
        proof (cases "module_uuid = 0")
          case True
          with nt f1 f3 have "\<not> truthy_int (network_uuid s3)" by (simp add: truthy_int_def)
          with k(5) True show ?thesis by (simp add: adopted_uuid_def)
        next
          case nz: False
          with nt f1 f3 have t3: "truthy_int (network_uuid s3)" by (simp add: truthy_int_def)
          from warning_wait_keeps_uuid[OF w t3] nt f1 f3 nz show ?thesis
            by (simp add: adopted_uuid_def)
        qed
        with k us show ?thesis by (intro exI[of _ "Suc k"]) simp
      qed
    qed
  qed
qed


text \<open>
  C3 (as amended). When the identify phase times out, the switch to the bootloader is
  sent to module id \<open>0xFFF\<close> and \<open>is_network\<close> is left unset. A warning wait that then
  succeeds has ended on a frame \<open>k\<close> of its reads, a \<open>0x0A\<close> frame with warning type 2 of
  a network or camera module. \<open>module_id\<close> is \<open>uuid & 0xFFF\<close> of the first frame of
  such a module, up to frame \<open>k\<close>, whose uuid is not zero; the page pipeline is
  \<open>update_network_module\<close> when the module of frame \<open>k\<close> is of type network,
  \<open>update_camera_module\<close> when it is a camera.
\<close>

theorem identify_timeout_then_warning_module:
  assumes "get_connected_module_info gt (set_progress (s\<lparr>update_in_progress := True\<rparr>) 0) evs
             = ((None, None, None), s1, evs1)"
      and "warning_wait gt (enter_bootloader s1 (None, None, None)) evs1 0 = (False, s2, evs2)"
      and "is_open s"
  shows "is_network (enter_bootloader s1 (None, None, None)) = None \<and>
         network_id (enter_bootloader s1 (None, None, None)) = Some 0xFFF \<and>
         sent (enter_bootloader s1 (None, None, None))
           = sent s1 @ [\<lparr>cmd = 0xA4, sid = 0, did = 0xFFF,
                          payload = State UPDATE_FIRMWARE PNP_OFF\<rparr>] \<and>
         (\<exists>k u'. k < length evs1 \<and> evs2 = drop (Suc k) evs1 \<and> ready_frame gt (evs1 ! k) \<and>
            warning_frame_uuid gt (evs1 ! k) = Some u' \<and>
            is_network s2 = Some (gt u' = ''network'') \<and>
            network_id s2
              = Some (adopted_uuid (List.map_filter (warning_frame_uuid gt) (take (Suc k) evs1))
                      AND 0xFFF) \<and>
            update_module_firmware gt fw s evs
              = finish_run
                  (if gt u' = ''network''
                   then update_network_module fw s2 evs2
                          (adopted_uuid (List.map_filter (warning_frame_uuid gt)
                                           (take (Suc k) evs1)) AND 0xFFF)
                   else update_camera_module fw s2 evs2
                          (adopted_uuid (List.map_filter (warning_frame_uuid gt)
                                           (take (Suc k) evs1)) AND 0xFFF)))"
proof -
  let ?sb = "enter_bootloader s1 (None, None, None)"
  have o: "is_open s1"
    using sends_only_fields[OF get_connected_module_info_sends[of
          "set_progress (s\<lparr>update_in_progress := True\<rparr>) 0" gt evs]] assms(1,3)
    by (simp add: set_progress_def)
  have a: "is_network ?sb = None" "network_id ?sb = Some 0xFFF"
      "sent ?sb = sent s1 @ [\<lparr>cmd = 0xA4, sid = 0, did = 0xFFF,
                          payload = State UPDATE_FIRMWARE PNP_OFF\<rparr>]"
      "network_uuid ?sb = None"
    using o
    by (simp_all add: enter_bootloader_def Let_def reopen_def close_def
          send_set_network_module_state_def write_pkt_def)
  have nt: "\<not> truthy_int (network_uuid ?sb)" by (simp add: a(4) truthy_int_def)
  from warning_wait_adopts[OF assms(2)] nt obtain k u' where
    k: "k < length evs1" "evs2 = drop (Suc k) evs1" "ready_frame gt (evs1 ! k)"
       "warning_frame_uuid gt (evs1 ! k) = Some u'"
       "is_network s2 = Some (gt u' = ''network'')"
       "network_id s2 = Some (adopted_uuid (List.map_filter (warning_frame_uuid gt)
                                              (take (Suc k) evs1)) AND 0xFFF)"
    by blast
  have "update_module_firmware gt fw s evs
          = finish_run
              (if gt u' = ''network''
               then update_network_module fw s2 evs2
                      (adopted_uuid (List.map_filter (warning_frame_uuid gt)
                                       (take (Suc k) evs1)) AND 0xFFF)
               else update_camera_module fw s2 evs2
                      (adopted_uuid (List.map_filter (warning_frame_uuid gt)
                                       (take (Suc k) evs1)) AND 0xFFF))"
    using assms(1,2) k(5,6)
    by (simp add: update_module_firmware_def Let_def run_module_update_def truthy_bool_def)
  with a(1,2,3) k show ?thesis by blast
qed

theorem identify_timeout_then_warning_module_witness:
  "get_connected_module_info sim_module_type
       (set_progress (init_updater\<lparr>update_in_progress := True\<rparr>) 0)
       ([identify_silence, network_warning, camera_ready] @ replicate 40 nak_reply)
     = ((None, None, None),
        send_request_network_uuid (set_progress (init_updater\<lparr>update_in_progress := True\<rparr>) 0),
        network_warning # camera_ready # replicate 40 nak_reply) \<and>
   is_open init_updater \<and>
   List.map_filter (warning_frame_uuid sim_module_type) [network_warning, camera_ready]
     = [0xABC, 0x100001234] \<and>
   (\<exists>s2. warning_wait sim_module_type
          (enter_bootloader
             (send_request_network_uuid
                (set_progress (init_updater\<lparr>update_in_progress := True\<rparr>) 0))
             (None, None, None))
          (network_warning # camera_ready # replicate 40 nak_reply) 0
        = (False, s2, replicate 40 nak_reply) \<and>
      is_network s2 = Some False \<and> network_id s2 = Some 0xABC \<and>
      update_module_firmware sim_module_type demo_firmware init_updater
          ([identify_silence, network_warning, camera_ready] @ replicate 40 nak_reply)
        = finish_run (update_camera_module demo_firmware s2 (replicate 40 nak_reply) 0xABC))"
proof -
  let ?s1 = "send_request_network_uuid (set_progress (init_updater\<lparr>update_in_progress := True\<rparr>) 0)"
  let ?evs1 = "network_warning # camera_ready # replicate 40 nak_reply"
  have g: "get_connected_module_info sim_module_type
       (set_progress (init_updater\<lparr>update_in_progress := True\<rparr>) 0)
       ([identify_silence, network_warning, camera_ready] @ replicate 40 nak_reply)
     = ((None, None, None), ?s1, ?evs1)"
    by (simp add: identify_silence_def)
  have o: "is_open init_updater" by (simp add: init_updater_def)
  have u1: "warning_frame_uuid sim_module_type network_warning = Some 0xABC"
    by (simp add: warning_frame_uuid_def network_warning_def sim_module_type_def
          is_updatable_def)
  have u2: "warning_frame_uuid sim_module_type camera_ready = Some 0x100001234"
    by (simp add: warning_frame_uuid_def camera_ready_def sim_module_type_def
          is_updatable_def)
  have mf: "List.map_filter (warning_frame_uuid sim_module_type) [network_warning, camera_ready]
     = [0xABC, 0x100001234]"
    by (simp add: List.map_filter_def u1 u2)
  obtain t s2 evs2 where w: "warning_wait sim_module_type
          (enter_bootloader ?s1 (None, None, None)) ?evs1 0 = (t, s2, evs2)"
    by (metis prod_cases3)
  have f: "fst (warning_wait sim_module_type (enter_bootloader ?s1 (None, None, None)) ?evs1 0)
             = False"
      "snd (snd (warning_wait sim_module_type (enter_bootloader ?s1 (None, None, None)) ?evs1 0))
             = replicate 40 nak_reply"
    by (simp_all add: network_warning_def camera_ready_def sim_module_type_def is_updatable_def
          Let_def enter_bootloader_def truthy_int_def reopen_def close_def
          send_set_network_module_state_def write_pkt_def split: option.splits)
  with w have w': "warning_wait sim_module_type
          (enter_bootloader ?s1 (None, None, None)) ?evs1 0 = (False, s2, replicate 40 nak_reply)"
    by simp
  from identify_timeout_then_warning_module[OF g w' o, of demo_firmware]
  obtain k u' where k: "k < length ?evs1" "replicate 40 nak_reply = drop (Suc k) ?evs1"
      "warning_frame_uuid sim_module_type (?evs1 ! k) = Some u'"
      "is_network s2 = Some (sim_module_type u' = ''network'')"
      "network_id s2 = Some (adopted_uuid (List.map_filter (warning_frame_uuid sim_module_type)
                                              (take (Suc k) ?evs1)) AND 0xFFF)"
      "update_module_firmware sim_module_type demo_firmware init_updater
          ([identify_silence, network_warning, camera_ready] @ replicate 40 nak_reply)
        = finish_run
            (if sim_module_type u' = ''network''
             then update_network_module demo_firmware s2 (replicate 40 nak_reply)
                    (adopted_uuid (List.map_filter (warning_frame_uuid sim_module_type)
                                     (take (Suc k) ?evs1)) AND 0xFFF)
             else update_camera_module demo_firmware s2 (replicate 40 nak_reply)
                    (adopted_uuid (List.map_filter (warning_frame_uuid sim_module_type)
                                     (take (Suc k) ?evs1)) AND 0xFFF))"
    by blast
  from k(2) have "length (replicate 40 nak_reply) = length (drop (Suc k) ?evs1)" by simp
  then have k1: "k = 1" by simp
  have tk: "take (Suc k) ?evs1 = [network_warning, camera_ready]" by (simp add: k1)
  have ad: "adopted_uuid [0xABC, 0x100001234] AND 0xFFF = 0xABC"
    by (simp add: adopted_uuid_def)
  from k(3) have u': "u' = 0x100001234" by (simp add: k1 u2)
  have cam: "sim_module_type u' \<noteq> ''network''" by (simp add: u' sim_module_type_def)
  from k(4,5,6) have
    "is_network s2 = Some False" "network_id s2 = Some 0xABC"
    "update_module_firmware sim_module_type demo_firmware init_updater
          ([identify_silence, network_warning, camera_ready] @ replicate 40 nak_reply)
        = finish_run (update_camera_module demo_firmware s2 (replicate 40 nak_reply) 0xABC)"
    unfolding tk mf ad using cam by simp_all
  with g o mf w' show ?thesis by blast
qed

text \<open>
  The claim as it stands has the update go on with module id \<open>0xFFF\<close> on the network
  path. In a run whose identify phase times out and whose warning frame comes from a
  camera module with uuid \<open>0x100001234\<close>, the camera procedure runs with module id
  \<open>0x234\<close>: its page erase fails and leaves the message of \<open>update_camera_module\<close>.
\<close>

theorem identify_timeout_counterexample:
  "map_option update_error_message
     (final_state (update_module_firmware sim_module_type demo_firmware init_updater
        ([identify_silence, camera_ready] @ replicate 21 nak_reply @ [ack_reply, ack_reply])))
     = Some ''camera (564) erase flash failed.'' \<and>
   map_option network_id
     (final_state (update_module_firmware sim_module_type demo_firmware init_updater
        ([identify_silence, camera_ready] @ replicate 21 nak_reply @ [ack_reply, ack_reply])))
     = Some (Some 0x234) \<and>
   map_option is_network
     (final_state (update_module_firmware sim_module_type demo_firmware init_updater
        ([identify_silence, camera_ready] @ replicate 21 nak_reply @ [ack_reply, ack_reply])))
     = Some (Some False)"
proof -
  obtain tr where "update_module_firmware sim_module_type demo_firmware init_updater
     ([identify_silence, camera_ready] @ replicate 21 nak_reply @ [ack_reply, ack_reply])
   = Inr (\<lparr>is_open = False, is_network = Some False, network_version = None,
           network_uuid = Some 0x100001234, network_id = Some 0x234,
           update_in_progress = False, progress = 100, update_error = - 1,
           update_error_message = ''camera (564) erase flash failed.'',
           has_update_error = True,
           sent = tr, progress_log = [0, 33, 66, 66, 66, 99, 100]\<rparr>, [])"
    using camera_page_erase_fails_run by blast
  then show ?thesis by (simp add: final_state_def)
qed

(*C5_SLOT*)

end
